theory Spec2Isabelle
  imports Main "HOL-Library.Sublist"
begin

section \<open>Text and characters\<close>

text \<open>
  Both scripts work on Python \<open>str\<close> values. A text is modelled as a \<^typ>\<open>string\<close>, each
  \<^typ>\<open>char\<close> standing for the code point of the same number (U+0000 to U+00FF); text with
  code points above U+00FF is outside the model. The character classes below are those of
  Python 3 for these code points.
\<close>

abbreviation newline :: char where "newline \<equiv> CHR 0x0A"
abbreviation dquote :: char where "dquote \<equiv> CHR 0x22"
abbreviation squote :: char where "squote \<equiv> CHR 0x27"
abbreviation backslash :: char where "backslash \<equiv> CHR 0x5C"
abbreviation backtick :: char where "backtick \<equiv> CHR 0x60"

text \<open>\<open>str.isspace\<close> and the regular-expression class \<open>\s\<close> (they agree on U+0000..U+00FF).\<close>

definition isspace :: "char \<Rightarrow> bool" where
  "isspace c = (c \<in> set [CHR 0x09, CHR 0x0A, CHR 0x0B, CHR 0x0C, CHR 0x0D,
                          CHR 0x1C, CHR 0x1D, CHR 0x1E, CHR 0x1F, CHR 0x20,
                          CHR 0x85, CHR 0xA0])"

text \<open>The regular-expression class \<open>\w\<close>: letters, digits, the underscore, and the
  alphanumeric code points of the Latin-1 block.\<close>

definition isword :: "char \<Rightarrow> bool" where
  "isword c =
     (let n = (of_char c :: nat) in
        (48 \<le> n \<and> n \<le> 57) \<or> (65 \<le> n \<and> n \<le> 90) \<or> n = 95 \<or> (97 \<le> n \<and> n \<le> 122)
        \<or> n = 170 \<or> n = 178 \<or> n = 179 \<or> n = 181 \<or> n = 185 \<or> n = 186
        \<or> (188 \<le> n \<and> n \<le> 190) \<or> (192 \<le> n \<and> n \<le> 214) \<or> (216 \<le> n \<and> n \<le> 246)
        \<or> 248 \<le> n)"

text \<open>\<open>s.startswith(p)\<close>\<close>

fun startswith :: "string \<Rightarrow> string \<Rightarrow> bool" where
  "startswith s [] = True"
| "startswith [] (p # ps) = False"
| "startswith (c # cs) (p # ps) = (c = p \<and> startswith cs ps)"

text \<open>\<open>s.endswith(p)\<close>\<close>

definition endswith :: "string \<Rightarrow> string \<Rightarrow> bool" where
  "endswith s p = startswith (rev s) (rev p)"

text \<open>\<open>sub in s\<close>\<close>

fun contains :: "string \<Rightarrow> string \<Rightarrow> bool" where
  "contains [] sub = (sub = [])"
| "contains (c # cs) sub = (startswith (c # cs) sub \<or> contains cs sub)"

text \<open>\<open>s.lstrip()\<close> and \<open>s.strip()\<close>\<close>

definition lstrip :: "string \<Rightarrow> string" where
  "lstrip s = dropWhile isspace s"

definition strip :: "string \<Rightarrow> string" where
  "strip s = rev (dropWhile isspace (rev (dropWhile isspace s)))"

text \<open>\<open>s.split(sep)\<close> for a non-empty separator (Python raises on an empty one; the scripts
  never pass one).\<close>

fun split :: "string \<Rightarrow> string \<Rightarrow> string list" where
  "split sep [] = [[]]"
| "split sep (c # cs) =
     (if startswith (c # cs) sep then [] # split sep (drop (length sep - 1) cs)
      else (case split sep cs of
              [] \<Rightarrow> [[c]]
            | l # ls \<Rightarrow> (c # l) # ls))"

text \<open>\<open>sep.join(xs)\<close>\<close>

fun join :: "string \<Rightarrow> string list \<Rightarrow> string" where
  "join sep [] = []"
| "join sep [x] = x"
| "join sep (x # y # ys) = x @ sep @ join sep (y # ys)"

section \<open>Regular-expression scanning\<close>

text \<open>
  A pattern is modelled by its matcher: given the text from some position on, the matcher
  returns the groups and the length of the match that Python's backtracking search finds
  starting exactly there, or \<open>None\<close>. No pattern of the scripts matches the empty string, so
  a scan resumes right after each match.

  \<open>re_finditer\<close> is \<open>re.finditer\<close>: the non-overlapping matches from left to right, each
  with its start offset, its groups and its end offset. \<open>re_sub\<close> is \<open>re.sub\<close> with a
  replacement function.
\<close>

fun re_finditer :: "(string \<Rightarrow> ('g \<times> nat) option) \<Rightarrow> nat \<Rightarrow> string \<Rightarrow> (nat \<times> 'g \<times> nat) list" where
  "re_finditer m pos [] = []"
| "re_finditer m pos (c # cs) =
     (case m (c # cs) of
        None \<Rightarrow> re_finditer m (pos + 1) cs
      | Some (g, n) \<Rightarrow> (pos, g, pos + n) # re_finditer m (pos + n) (drop (n - 1) cs))"

fun re_sub :: "(string \<Rightarrow> ('g \<times> nat) option) \<Rightarrow> ('g \<Rightarrow> string) \<Rightarrow> string \<Rightarrow> string" where
  "re_sub m repl [] = []"
| "re_sub m repl (c # cs) =
     (case m (c # cs) of
        None \<Rightarrow> c # re_sub m repl cs
      | Some (g, n) \<Rightarrow> repl g @ re_sub m repl (drop (n - 1) cs))"

text \<open>A pattern that is a literal text.\<close>

definition literal_match :: "string \<Rightarrow> string \<Rightarrow> (unit \<times> nat) option" where
  "literal_match lit s = (if startswith s lit then Some ((), length lit) else None)"

text \<open>
  A replacement given as a string is a template: \<open>re.sub\<close> processes its backslash escapes
  before inserting it. \<open>\\\<close> stands for one backslash, \<open>\1\<close>..\<open>\9\<close> for a group, \<open>\n\<close> and
  \<open>\t\<close> for newline and tab; a backslash before any other non-letter is kept with that
  character. (Other letter escapes are rejected by Python; the scripts use none.)
\<close>

definition group_digit :: "char \<Rightarrow> nat option" where
  "group_digit d =
     (let n = (of_char d :: nat) in if 49 \<le> n \<and> n \<le> 57 then Some (n - 48) else None)"

fun expand_template :: "string \<Rightarrow> (nat \<Rightarrow> string) \<Rightarrow> string" where
  "expand_template [] g = []"
| "expand_template [c] g = [c]"
| "expand_template (c # d # r) g =
     (if c = backslash then
        (if d = backslash then backslash # expand_template r g
         else if d = CHR ''n'' then newline # expand_template r g
         else if d = CHR ''t'' then CHR 0x09 # expand_template r g
         else (case group_digit d of
                 Some k \<Rightarrow> g k @ expand_template r g
               | None \<Rightarrow> c # d # expand_template r g))
      else c # expand_template (d # r) g)"

text \<open>\<open>s.replace(old, new)\<close> for a non-empty \<open>old\<close>: no template, the text \<open>new\<close> as it is.\<close>

definition replace :: "string \<Rightarrow> string \<Rightarrow> string \<Rightarrow> string" where
  "replace old new s = re_sub (literal_match old) (\<lambda>_. new) s"

section \<open>The fixer (fix_common_issues.py)\<close>

subsection \<open>fix_curl_headers\<close>

text \<open>
  The pattern is \<^verbatim>\<open>(curl -X POST[^\\]*?)(-d \'{[^}]*}\')\<close>.

  \<open>data_match\<close> is its second group, \<^verbatim>\<open>-d '{[^}]*}'\<close>: after the opening, the greedy class
  runs to the first closing brace, which must be followed by the quote (giving back any
  character leaves a non-brace where the brace is required).
\<close>

definition data_match :: "string \<Rightarrow> nat option" where
  "data_match s =
     (if startswith s (''-d '' @ [squote] @ ''{'') then
        (let body = takeWhile (\<lambda>c. c \<noteq> CHR ''}'') (drop 5 s);
             r = dropWhile (\<lambda>c. c \<noteq> CHR ''}'') (drop 5 s)
         in if startswith r (''}'' @ [squote]) then Some (5 + length body + 2) else None)
      else None)"

text \<open>
  \<open>curl_lazy\<close> is the lazy class \<^verbatim>\<open>[^\\]*?\<close> followed by the second group: the data
  argument is tried at each offset in turn, and the class moves on one character only over
  a character that is not a backslash. The result is the number of characters the class
  took and the length of the data argument.
\<close>

fun curl_lazy :: "string \<Rightarrow> (nat \<times> nat) option" where
  "curl_lazy [] = (case data_match [] of Some d \<Rightarrow> Some (0, d) | None \<Rightarrow> None)"
| "curl_lazy (c # cs) =
     (case data_match (c # cs) of
        Some d \<Rightarrow> Some (0, d)
      | None \<Rightarrow>
          (if c = backslash then None
           else (case curl_lazy cs of
                   Some (k, d) \<Rightarrow> Some (Suc k, d)
                 | None \<Rightarrow> None)))"

definition curl_post_match :: "string \<Rightarrow> ((string \<times> string) \<times> nat) option" where
  "curl_post_match s =
     (if startswith s ''curl -X POST'' then
        (case curl_lazy (drop 12 s) of
           Some (k, d) \<Rightarrow> Some ((take (12 + k) s, take d (drop (12 + k) s)), 12 + k + d)
         | None \<Rightarrow> None)
      else None)"

definition content_type_header :: string where
  "content_type_header = ''-H '' @ [dquote] @ ''Content-Type: application/json'' @ [dquote] @ '' '' @ [backslash, newline] @ ''  ''"

definition add_content_type :: "string \<times> string \<Rightarrow> string" where
  "add_content_type g =
     (let curl_cmd = fst g; data_part = snd g in
        if contains curl_cmd ''Content-Type:'' then curl_cmd @ data_part
        else curl_cmd @ content_type_header @ data_part)"

definition fix_curl_headers :: "string \<Rightarrow> string" where
  "fix_curl_headers content = re_sub curl_post_match add_content_type content"

subsection \<open>fix_json_formatting\<close>

text \<open>
  \<^verbatim>\<open>re.sub(r'\\n', '\\\\n', content)\<close>: the pattern matches the two characters backslash, n;
  the replacement is the template of the three characters backslash, backslash, n.
  Likewise for t.
\<close>

definition fix_json_formatting :: "string \<Rightarrow> string" where
  "fix_json_formatting content =
     (let content = re_sub (literal_match [backslash, CHR ''n''])
                      (\<lambda>_. expand_template [backslash, backslash, CHR ''n''] (\<lambda>_. [])) content;
          content = re_sub (literal_match [backslash, CHR ''t''])
                      (\<lambda>_. expand_template [backslash, backslash, CHR ''t''] (\<lambda>_. [])) content
      in content)"

subsection \<open>fix_python_indentation_in_json\<close>

text \<open>
  The pattern is \<^verbatim>\<open>("python_code":\s*")(.*?)(")\<close> with DOTALL: the key, the whitespace run,
  an opening quote, then the shortest text up to the next quote.
\<close>

definition python_code_key :: string where
  "python_code_key = [dquote] @ ''python_code'' @ [dquote] @ '':''"

definition python_code_match :: "string \<Rightarrow> ((string \<times> string \<times> string) \<times> nat) option" where
  "python_code_match s =
     (if startswith s python_code_key then
        (let ws = takeWhile isspace (drop 14 s);
             r1 = dropWhile isspace (drop 14 s)
         in case r1 of
              [] \<Rightarrow> None
            | q # r2 \<Rightarrow>
                if q = dquote then
                  (let body = takeWhile (\<lambda>c. c \<noteq> dquote) r2;
                       r3 = dropWhile (\<lambda>c. c \<noteq> dquote) r2
                   in if r3 = [] then None
                      else Some ((python_code_key @ ws @ [dquote], body, [dquote]),
                                 14 + length ws + 1 + length body + 1))
                else None)
      else None)"

definition fix_embedded_python :: "string \<times> string \<times> string \<Rightarrow> string" where
  "fix_embedded_python g =
     (case g of (prefix_part, python_code, suffix_part) \<Rightarrow>
        (let python_code = replace [backslash, CHR ''n''] [backslash, backslash, CHR ''n''] python_code;
             python_code = replace [dquote] [backslash, dquote] python_code
         in prefix_part @ python_code @ suffix_part))"

definition fix_python_indentation_in_json :: "string \<Rightarrow> string" where
  "fix_python_indentation_in_json content = re_sub python_code_match fix_embedded_python content"

subsection \<open>process_file\<close>

text \<open>The three rewrites of \<open>process_file\<close>, in its order.\<close>

definition apply_fixes :: "string \<Rightarrow> string" where
  "apply_fixes original_content =
     (let content = original_content;
          content = fix_curl_headers content;
          content = fix_json_formatting content;
          content = fix_python_indentation_in_json content
      in content)"

text \<open>
  A file is its content, or \<open>None\<close> when it cannot be read. \<open>process_file\<close> returns its
  boolean and the file as it is afterwards: rewritten only when the content changed.
\<close>

definition process_file :: "string option \<Rightarrow> bool \<times> string option" where
  "process_file file =
     (case file of
        None \<Rightarrow> (False, None)
      | Some original_content \<Rightarrow>
          (let content = apply_fixes original_content in
             if content \<noteq> original_content then (True, Some content)
             else (False, Some original_content)))"

section \<open>The validator (validate_examples.py)\<close>

subsection \<open>What the validator gets from outside\<close>

text \<open>
  The Python parser, the module finder, the JSON parser, the network, the clock and the
  file system are not code of the scripts; the model takes them as an environment.

  \<open>ast.parse\<close> returns a syntax tree or raises. Of the tree only the import statements
  matter: \<open>Import\<close> carries the names of its aliases, \<open>ImportFrom\<close> its module (absent for
  \<^verbatim>\<open>from . import x\<close>), and \<open>Node\<close> is any other node with its child nodes in order.
\<close>

datatype py_node = Import "string list" | ImportFrom "string option" | Node "py_node list"

datatype parse_result =
    Parsed py_node
  | SyntaxError string      \<comment> \<open>\<open>SyntaxError\<close>, with its text\<close>
  | ParseException string   \<comment> \<open>any other exception, with its text\<close>

text \<open>
  \<open>importlib.util.find_spec(name)\<close> for a top-level name returns a spec, returns \<open>None\<close>
  when no module of that name is found, or raises.
\<close>

datatype spec_result =
    Spec_Found
  | Spec_None
  | Spec_ImportError string   \<comment> \<open>\<open>ImportError\<close>, \<open>ModuleNotFoundError\<close> or \<open>ValueError\<close>\<close>
  | Spec_Exception string     \<comment> \<open>any other exception, with its text\<close>

text \<open>
  \<open>json.loads\<close> returns, raises \<open>JSONDecodeError\<close>, or raises another exception
  (\<open>RecursionError\<close> on deep nesting, \<open>ValueError\<close> on an overlong number).
\<close>

datatype json_result =
    Json_Parsed
  | Json_Decode_Error string   \<comment> \<open>\<open>JSONDecodeError\<close>, with its text\<close>
  | Json_Exception string      \<comment> \<open>any other exception, with its text\<close>

text \<open>
  A network request yields a response or a \<open>RequestException\<close> (the form in which the
  requests library reports its failures). A response is its status code and what the
  script's reading of the body gives: \<open>response.json()\<close> raises \<open>JSONDecodeError\<close>
  (\<open>Body_Invalid\<close>); the body is an object with the key \<open>available_credits\<close>
  (\<open>Body_With_Credits\<close>); the body is an object, list or string without it
  (\<open>Body_Without_Credits\<close>); or the body is a number, \<open>null\<close>, a boolean, or a list or
  string holding \<open>available_credits\<close>, on which the membership test or the subscript
  raises \<open>TypeError\<close> (\<open>Body_Type_Error\<close>, with its text).
\<close>

datatype body_json =
    Body_Invalid
  | Body_With_Credits
  | Body_Without_Credits
  | Body_Type_Error string

datatype http_result = Response int body_json | RequestException string

text \<open>
  \<open>now_isoformat\<close> is \<open>datetime.now().isoformat()\<close>. \<open>write_report dir text\<close> is the
  writing of \<open>validation_report.md\<close> in the directory \<open>dir\<close>: \<open>None\<close> when it succeeds,
  the text of the exception when it raises.
\<close>

record env =
  ast_parse :: "string \<Rightarrow> parse_result"
  find_spec :: "string \<Rightarrow> spec_result"
  json_loads :: "string \<Rightarrow> json_result"
  http_get :: "string \<Rightarrow> (string \<times> string) list \<Rightarrow> http_result"
  http_options :: "string \<Rightarrow> (string \<times> string) list \<Rightarrow> http_result"
  now_isoformat :: string
  write_report :: "string \<Rightarrow> string \<Rightarrow> string option"

subsection \<open>Errors and warnings\<close>

text \<open>
  The validator appends formatted lines to \<open>self.errors\<close> and \<open>self.warnings\<close>. An entry
  is kept with its format and its fields; \<open>render_entry\<close> gives the line itself.
\<close>

datatype entry =
    Python_Syntax_Error string string
  | Error_Parsing_Python string string
  | Unavailable_Imports string "string list"
  | Error_Checking_Imports string string
  | Unrecognized_Endpoint string string
  | Endpoint_Status string string int
  | Endpoint_Unreachable string string string
  | Auth_Failed string string
  | Forbidden_Access string string
  | Server_Error string int string
  | Client_Error string int string
  | Unexpected_Response_Format string string
  | Invalid_JSON_Response string string
  | Lyceum_Unreachable string string string
  | Missing_Authorization string string
  | Missing_Content_Type string string
  | Possible_Real_Token string string
  | Invalid_JSON string string
  | Template_JSON string string
  | Failed_To_Validate string string

fun digit_char :: "nat \<Rightarrow> char" where
  "digit_char n = char_of (48 + n)"

function str_nat :: "nat \<Rightarrow> string" where
  "str_nat n = (if n < 10 then [digit_char n] else str_nat (n div 10) @ [digit_char (n mod 10)])"
  by pat_completeness auto
termination
  by (relation "measure id") auto

definition str_int :: "int \<Rightarrow> string" where
  "str_int i = (if i < 0 then ''-'' @ str_nat (nat (- i)) else str_nat (nat i))"

text \<open>The \<open>repr\<close> of a list of module names (names hold no quote and no backslash).\<close>

definition repr_names :: "string list \<Rightarrow> string" where
  "repr_names xs = ''['' @ join '', '' (map (\<lambda>x. [squote] @ x @ [squote]) xs) @ '']''"

fun render_entry :: "entry \<Rightarrow> string" where
  "render_entry (Python_Syntax_Error f e) = f @ '': Python syntax error in code block: '' @ e"
| "render_entry (Error_Parsing_Python f e) = f @ '': Error parsing Python code: '' @ e"
| "render_entry (Unavailable_Imports f xs) = f @ '': Potentially unavailable imports: '' @ repr_names xs"
| "render_entry (Error_Checking_Imports f e) = f @ '': Error checking imports: '' @ e"
| "render_entry (Unrecognized_Endpoint f u) = f @ '': Unrecognized Lyceum endpoint pattern: '' @ u"
| "render_entry (Endpoint_Status f u c) = f @ '': Endpoint '' @ u @ '' returned status '' @ str_int c"
| "render_entry (Endpoint_Unreachable f u e) = f @ '': Could not reach endpoint '' @ u @ '': '' @ e"
| "render_entry (Auth_Failed f u) = f @ '': Authentication failed for '' @ u @ '' - invalid token?''"
| "render_entry (Forbidden_Access f u) = f @ '': Forbidden access to '' @ u @ '' - check permissions''"
| "render_entry (Server_Error f c u) = f @ '': Server error '' @ str_int c @ '' for '' @ u"
| "render_entry (Client_Error f c u) = f @ '': Client error '' @ str_int c @ '' for '' @ u"
| "render_entry (Unexpected_Response_Format f u) = f @ '': Unexpected response format from '' @ u"
| "render_entry (Invalid_JSON_Response f u) = f @ '': Invalid JSON response from '' @ u"
| "render_entry (Lyceum_Unreachable f u e) = f @ '': Could not reach Lyceum endpoint '' @ u @ '': '' @ e"
| "render_entry (Missing_Authorization f c) =
     f @ '': Lyceum API call missing Authorization header: '' @ c @ ''...''"
| "render_entry (Missing_Content_Type f c) =
     f @ '': JSON POST request missing Content-Type header: '' @ c @ ''...''"
| "render_entry (Possible_Real_Token f c) =
     f @ '': API call might contain real token instead of placeholder: '' @ c @ ''...''"
| "render_entry (Invalid_JSON f e) = f @ '': Invalid JSON in code block: '' @ e"
| "render_entry (Template_JSON f e) = f @ '': Template JSON with placeholders: '' @ e"
| "render_entry (Failed_To_Validate p e) = ''Failed to validate '' @ p @ '': '' @ e"

subsection \<open>The validator's state\<close>

record file_result =
  file_name :: string
  python_blocks :: nat
  json_blocks :: nat
  curl_commands :: nat
  api_endpoints :: nat
  n_errors :: nat
  n_warnings :: nat

record validator =
  docs_dir :: string
  auth_token :: "string option"
  errors :: "entry list"
  warnings :: "entry list"
  validated_examples :: "file_result list"

definition init_validator :: "string \<Rightarrow> string option \<Rightarrow> validator" where
  "init_validator dir token =
     \<lparr>docs_dir = dir, auth_token = token, errors = [], warnings = [],
      validated_examples = []\<rparr>"

definition add_error :: "entry \<Rightarrow> validator \<Rightarrow> validator" where
  "add_error e st = st\<lparr>errors := errors st @ [e]\<rparr>"

definition add_warning :: "entry \<Rightarrow> validator \<Rightarrow> validator" where
  "add_warning w st = st\<lparr>warnings := warnings st @ [w]\<rparr>"

definition test_endpoints :: "string list" where
  "test_endpoints =
     [''https://jsonplaceholder.typicode.com/users'',
      ''https://jsonplaceholder.typicode.com/posts'',
      ''https://httpbin.org/get'',
      ''https://httpbin.org/headers'']"

definition lyceum_test_endpoints :: "string list" where
  "lyceum_test_endpoints =
     [''https://api.lyceum.technology/api/v2/external/billing/credits'',
      ''https://api.lyceum.technology/api/v2/external/storage/list-files'']"

subsection \<open>extract_code_blocks\<close>

text \<open>
  The pattern is \<^verbatim>\<open>```(\w+)?\s*([^`]*?)```\<close>. After the opening fence the tag takes the
  whole run of word characters and \<open>\s*\<close> the whole run of whitespace; the lazy body can
  only end at the first back-tick, where the closing fence must stand. Giving back
  characters of the tag or of the whitespace moves neither that back-tick nor what stands
  there, so the first attempt decides. An absent tag is the empty tag here (the script
  reads both as \<open>text\<close>).
\<close>

definition fence_match :: "string \<Rightarrow> ((string \<times> string) \<times> nat) option" where
  "fence_match s =
     (if startswith s [backtick, backtick, backtick] then
        (let r = drop 3 s;
             tag = takeWhile isword r;
             r1 = dropWhile isword r;
             ws = takeWhile isspace r1;
             r2 = dropWhile isspace r1;
             body = takeWhile (\<lambda>c. c \<noteq> backtick) r2;
             r3 = dropWhile (\<lambda>c. c \<noteq> backtick) r2
         in if startswith r3 [backtick, backtick, backtick]
            then Some ((tag, body), 3 + length tag + length ws + length body + 3)
            else None)
      else None)"

record code_block =
  language :: string
  code :: string
  start_pos :: nat
  end_pos :: nat

definition mk_block :: "nat \<times> (string \<times> string) \<times> nat \<Rightarrow> code_block option" where
  "mk_block m =
     (case m of (start, (tag, body), end) \<Rightarrow>
        (let language = (if tag = [] then ''text'' else tag);
             code = strip body
         in if code \<noteq> []
            then Some \<lparr>language = language, code = code, start_pos = start, end_pos = end\<rparr>
            else None))"

definition extract_code_blocks :: "string \<Rightarrow> code_block list" where
  "extract_code_blocks content = List.map_filter mk_block (re_finditer fence_match 0 content)"

subsection \<open>extract_curl_commands\<close>

record curl_command =
  command :: string
  block :: code_block

definition mk_curl :: "code_block \<Rightarrow> string list \<Rightarrow> curl_command" where
  "mk_curl b current_curl = \<lparr>command = join '' '' current_curl, block = b\<rparr>"

text \<open>The loop over the lines of one block; \<open>current_curl\<close> is the command being collected.\<close>

fun curl_lines :: "code_block \<Rightarrow> string list \<Rightarrow> string list \<Rightarrow> curl_command list" where
  "curl_lines b current_curl [] = (if current_curl \<noteq> [] then [mk_curl b current_curl] else [])"
| "curl_lines b current_curl (l # ls) =
     (let line = strip l in
        if startswith line ''curl'' then
          (if current_curl \<noteq> [] then [mk_curl b current_curl] else []) @ curl_lines b [line] ls
        else if current_curl \<noteq> []
                \<and> (startswith line ''-'' \<or> startswith line [dquote] \<or> contains line [backslash]) then
          curl_lines b (current_curl @ [line]) ls
        else if current_curl \<noteq> [] then
          mk_curl b current_curl # curl_lines b [] ls
        else curl_lines b current_curl ls)"

definition extract_curl_commands :: "string \<Rightarrow> curl_command list" where
  "extract_curl_commands content =
     concat (map (\<lambda>b. if language b \<in> set [''bash'', ''shell'', ''curl'']
                       then curl_lines b [] (split [newline] (code b)) else [])
                 (extract_code_blocks content))"

subsection \<open>clean_python_code, validate_python_syntax, validate_python_imports\<close>

definition indent :: "string \<Rightarrow> nat" where
  "indent line = length line - length (lstrip line)"

definition skip_line :: "string \<Rightarrow> bool" where
  "skip_line line =
     ((startswith (strip line) ''#'' \<and> (contains line ''$'' \<or> contains line ''curl''))
      \<or> (startswith (strip line) ''!'' \<or> startswith (strip line) ''$'')
      \<or> (startswith (strip line) ''...'' \<and> endswith (strip line) ''...'')
      \<or> (contains line ''curl -X'' \<or> startswith (strip line) ''curl''))"

definition clean_line :: "nat \<Rightarrow> string \<Rightarrow> string" where
  "clean_line min_indent line =
     (if strip line \<noteq> [] then
        (if length line \<ge> min_indent then drop min_indent line else line)
      else [])"

definition clean_python_code :: "string \<Rightarrow> string" where
  "clean_python_code c =
     (let lines = split [newline] c;
          non_empty_lines = filter (\<lambda>line. strip line \<noteq> []) lines
      in if non_empty_lines = [] then c
         else
           (let min_indent = (case map indent non_empty_lines of
                                [] \<Rightarrow> 0
                              | i # is \<Rightarrow> fold min is i);
                cleaned_lines = map (clean_line min_indent)
                                    (filter (\<lambda>line. \<not> skip_line line) lines)
            in join [newline] cleaned_lines))"

definition validate_python_syntax :: "env \<Rightarrow> string \<Rightarrow> string \<Rightarrow> validator \<Rightarrow> bool \<times> validator" where
  "validate_python_syntax ev c filename st =
     (case ast_parse ev (clean_python_code c) of
        Parsed tree \<Rightarrow> (True, st)
      | SyntaxError e \<Rightarrow> (False, add_error (Python_Syntax_Error filename e) st)
      | ParseException e \<Rightarrow> (False, add_error (Error_Parsing_Python filename e) st))"

text \<open>\<open>ast.walk\<close>: breadth first, from a queue.\<close>

fun child_nodes :: "py_node \<Rightarrow> py_node list" where
  "child_nodes (Node cs) = cs"
| "child_nodes n = []"

fun node_count :: "py_node \<Rightarrow> nat" where
  "node_count (Node cs) = Suc (sum_list (map node_count cs))"
| "node_count n = 1"

function walk_queue :: "py_node list \<Rightarrow> py_node list" where
  "walk_queue [] = []"
| "walk_queue (n # todo) = n # walk_queue (todo @ child_nodes n)"
  by pat_completeness auto
termination
proof (relation "measure (\<lambda>todo. sum_list (map node_count todo))")
  show "wf (measure (\<lambda>todo. sum_list (map node_count todo)))" by simp
next
  fix n :: py_node and todo :: "py_node list"
  have "sum_list (map node_count (child_nodes n)) < node_count n"
    by (cases n) simp_all
  then show "(todo @ child_nodes n, n # todo) \<in> measure (\<lambda>todo. sum_list (map node_count todo))"
    by simp
qed

definition ast_walk :: "py_node \<Rightarrow> py_node list" where
  "ast_walk tree = walk_queue [tree]"

fun node_imports :: "py_node \<Rightarrow> string list" where
  "node_imports (Import names) = names"
| "node_imports (ImportFrom module) =
     (case module of None \<Rightarrow> [] | Some m \<Rightarrow> if m \<noteq> [] then [m] else [])"
| "node_imports (Node cs) = []"

definition common_packages :: "string list" where
  "common_packages =
     [''requests'', ''pandas'', ''numpy'', ''matplotlib'', ''seaborn'',
      ''torch'', ''torchvision'', ''sklearn'', ''json'', ''os'', ''sys'',
      ''time'', ''datetime'', ''pathlib'', ''tempfile'', ''subprocess'',
      ''hashlib'', ''hmac'', ''base64'', ''random'', ''math'', ''collections'',
      ''functools'', ''itertools'', ''glob'', ''shutil'', ''urllib'',
      ''PIL'', ''cv2'', ''boto3'', ''fastapi'', ''uvicorn'', ''flask'']"

definition base_package :: "string \<Rightarrow> string" where
  "base_package imp = (case split ''.'' imp of [] \<Rightarrow> [] | b # rest \<Rightarrow> b)"

text \<open>
  The loop over the imports: a name goes to \<open>problematic_imports\<close> only when
  \<open>find_spec\<close> raises one of the three caught exceptions; what \<open>find_spec\<close> returns is not
  looked at. Any other exception leaves the loop (\<open>Inl\<close>).
\<close>

fun check_imports :: "env \<Rightarrow> string list \<Rightarrow> string list \<Rightarrow> string + string list" where
  "check_imports ev [] problematic_imports = Inr problematic_imports"
| "check_imports ev (imp # imps) problematic_imports =
     (if base_package imp \<notin> set common_packages \<and> \<not> startswith (base_package imp) ''_'' then
        (case find_spec ev (base_package imp) of
           Spec_Found \<Rightarrow> check_imports ev imps problematic_imports
         | Spec_None \<Rightarrow> check_imports ev imps problematic_imports
         | Spec_ImportError e \<Rightarrow> check_imports ev imps (problematic_imports @ [imp])
         | Spec_Exception e \<Rightarrow> Inl e)
      else check_imports ev imps problematic_imports)"

definition validate_python_imports :: "env \<Rightarrow> string \<Rightarrow> string \<Rightarrow> validator \<Rightarrow> bool \<times> validator" where
  "validate_python_imports ev c filename st =
     (case ast_parse ev (clean_python_code c) of
        Parsed tree \<Rightarrow>
          (let imports = concat (map node_imports (ast_walk tree)) in
             case check_imports ev imports [] of
               Inr problematic_imports \<Rightarrow>
                 (if problematic_imports \<noteq> []
                  then (True, add_warning (Unavailable_Imports filename problematic_imports) st)
                  else (True, st))
             | Inl e \<Rightarrow> (False, add_error (Error_Checking_Imports filename e) st))
      | SyntaxError e \<Rightarrow> (False, add_error (Error_Checking_Imports filename e) st)
      | ParseException e \<Rightarrow> (False, add_error (Error_Checking_Imports filename e) st))"

subsection \<open>validate_lyceum_endpoint_structure\<close>

text \<open>
  \<open>re.match\<close> anchors a pattern at the start of the URL only. Each expected pattern is a
  literal prefix, a group of alternatives tried in order, and a literal rest.
\<close>

definition re_match_alt :: "string \<Rightarrow> string list \<Rightarrow> string \<Rightarrow> string \<Rightarrow> bool" where
  "re_match_alt lit alts rest url =
     (startswith url lit \<and> list_ex (\<lambda>a. startswith (drop (length lit) url) (a @ rest)) alts)"

definition expected_patterns :: "(string \<Rightarrow> bool) list" where
  "expected_patterns =
     [re_match_alt ''https://api.lyceum.technology/api/v2/external/execution/''
        [''python'', ''image''] ''/start'',
      re_match_alt ''https://api.lyceum.technology/api/v2/external/storage/''
        [''upload'', ''download'', ''list-files'', ''credentials'', ''delete''] [],
      re_match_alt ''https://api.lyceum.technology/api/v2/external/billing/''
        [''credits'', ''checkout'', ''history'', ''activities''] [],
      (\<lambda>url. startswith url ''https://dashboard.lyceum.technology'')]"

definition validate_lyceum_endpoint_structure :: "string \<Rightarrow> string \<Rightarrow> validator \<Rightarrow> bool \<times> validator" where
  "validate_lyceum_endpoint_structure url filename st =
     (if list_ex (\<lambda>pattern. pattern url) expected_patterns then (True, st)
      else (True, add_warning (Unrecognized_Endpoint filename url) st))"

subsection \<open>test_endpoint, test_lyceum_endpoint\<close>

definition test_endpoint :: "env \<Rightarrow> string \<Rightarrow> string \<Rightarrow> validator \<Rightarrow> bool \<times> validator" where
  "test_endpoint ev url filename st =
     (case http_get ev url [] of
        Response status_code body \<Rightarrow>
          (if status_code \<ge> 400
           then (False, add_warning (Endpoint_Status filename url status_code) st)
           else (True, st))
      | RequestException e \<Rightarrow> (False, add_warning (Endpoint_Unreachable filename url e) st))"

definition auth_headers :: "validator \<Rightarrow> (string \<times> string) list" where
  "auth_headers st =
     [(''Authorization'', ''Bearer '' @ (case auth_token st of None \<Rightarrow> ''None'' | Some t \<Rightarrow> t)),
      (''Content-Type'', ''application/json'')]"

text \<open>The request \<open>test_lyceum_endpoint\<close> sends: GET for the two routes it knows, OPTIONS otherwise.\<close>

definition lyceum_request :: "env \<Rightarrow> string \<Rightarrow> (string \<times> string) list \<Rightarrow> http_result" where
  "lyceum_request ev url headers =
     (if contains url ''billing/credits'' then http_get ev url headers
      else if contains url ''storage/list-files'' then http_get ev url headers
      else http_options ev url headers)"

text \<open>
  A function that an exception can leave returns \<open>Inl\<close> with the exception's text, or
  \<open>Inr\<close> with its value, next to the validator as it is at that moment.

  In \<open>test_lyceum_endpoint\<close> only \<open>RequestException\<close> and the \<open>JSONDecodeError\<close> of the
  body are caught; a \<open>TypeError\<close> on the body leaves the function.
\<close>

definition test_lyceum_endpoint :: "env \<Rightarrow> string \<Rightarrow> string \<Rightarrow> validator \<Rightarrow> (string + bool) \<times> validator" where
  "test_lyceum_endpoint ev url filename st =
     (let headers = auth_headers st;
          response = lyceum_request ev url headers
      in case response of
           RequestException e \<Rightarrow> (Inr False, add_warning (Lyceum_Unreachable filename url e) st)
         | Response status_code body \<Rightarrow>
             (if status_code = 401 then (Inr False, add_error (Auth_Failed filename url) st)
              else if status_code = 403
                then (Inr True, add_warning (Forbidden_Access filename url) st)
              else if status_code \<ge> 500
                then (Inr False, add_warning (Server_Error filename status_code url) st)
              else if status_code \<ge> 400
                then (Inr False, add_warning (Client_Error filename status_code url) st)
              else if contains url ''billing/credits'' \<and> status_code = 200 then
                (case body of
                   Body_With_Credits \<Rightarrow> (Inr True, st)
                 | Body_Without_Credits \<Rightarrow>
                     (Inr True, add_warning (Unexpected_Response_Format filename url) st)
                 | Body_Invalid \<Rightarrow>
                     (Inr True, add_warning (Invalid_JSON_Response filename url) st)
                 | Body_Type_Error e \<Rightarrow> (Inl e, st))
              else (Inr True, st)))"

subsection \<open>validate_api_endpoints\<close>

text \<open>
  The URL pattern is \<^verbatim>\<open>https?://[^\s\'"<>{}|\\^`\[\]]+[^\s\'"<>{}|\\^`\[\].,;:!?]\<close>: after the
  scheme, the first class takes the whole run of its characters and gives back from the
  end until the last character left can end the URL (the second class); the run must keep
  one character for the first class.
\<close>

definition urlchar :: "char \<Rightarrow> bool" where
  "urlchar c = (\<not> isspace c \<and> c \<notin> set ([squote, dquote] @ ''<>{}|'' @ [backslash] @ ''^'' @ [backtick] @ ''[]''))"

definition urlend :: "char \<Rightarrow> bool" where
  "urlend c = (urlchar c \<and> c \<notin> set ''.,;:!?'')"

definition url_match :: "string \<Rightarrow> (string \<times> nat) option" where
  "url_match s =
     (case (if startswith s ''https://'' then Some 8
            else if startswith s ''http://'' then Some 7 else None) of
        None \<Rightarrow> None
      | Some k \<Rightarrow>
          (let run = takeWhile urlchar (drop k s);
               body = rev (dropWhile (\<lambda>c. \<not> urlend c) (rev run))
           in if 2 \<le> length body then Some (take (k + length body) s, k + length body)
              else None))"

text \<open>\<open>re.findall(url_pattern, content)\<close>: the matched texts.\<close>

definition find_urls :: "string \<Rightarrow> string list" where
  "find_urls content = map (\<lambda>m. fst (snd m)) (re_finditer url_match 0 content)"

text \<open>
  The clean-up pattern is \<^verbatim>\<open>[.,;:!?\'">\])}]+$\<close>: a run of these characters that reaches
  the end of the text (or the newline that ends it).
\<close>

definition trailing_punct :: "char \<Rightarrow> bool" where
  "trailing_punct c = (c \<in> set (''.,;:!?'' @ [squote, dquote] @ ''>])}''))"

definition trailing_match :: "string \<Rightarrow> (unit \<times> nat) option" where
  "trailing_match s =
     (let run = takeWhile trailing_punct s;
          r = dropWhile trailing_punct s
      in if run \<noteq> [] \<and> (r = [] \<or> r = [newline]) then Some ((), length run) else None)"

definition clean_url :: "string \<Rightarrow> string" where
  "clean_url url = re_sub trailing_match (\<lambda>_. []) url"

definition truthy :: "string option \<Rightarrow> bool" where
  "truthy t = (case t of None \<Rightarrow> False | Some v \<Rightarrow> v \<noteq> [])"

text \<open>
  The loop over the URLs found, with \<open>all_valid\<close> and the validator; an exception in
  \<open>test_lyceum_endpoint\<close> ends it.
\<close>

fun endpoint_loop :: "env \<Rightarrow> string \<Rightarrow> string list \<Rightarrow> bool \<Rightarrow> validator \<Rightarrow> (string + bool) \<times> validator" where
  "endpoint_loop ev filename [] all_valid st = (Inr all_valid, st)"
| "endpoint_loop ev filename (found # urls) all_valid st =
     (let url = clean_url found
      in if contains url ''api.lyceum.technology'' then
           (let (ok1, st1) = validate_lyceum_endpoint_structure url filename st;
                all_valid1 = (if \<not> ok1 then False else all_valid)
            in if truthy (auth_token st1) \<and> url \<in> set lyceum_test_endpoints then
                 (case test_lyceum_endpoint ev url filename st1 of
                    (Inl e, st2) \<Rightarrow> (Inl e, st2)
                  | (Inr ok2, st2) \<Rightarrow>
                      endpoint_loop ev filename urls (if \<not> ok2 then False else all_valid1) st2)
               else endpoint_loop ev filename urls all_valid1 st1)
         else if url \<in> set test_endpoints then
           (let (ok, st1) = test_endpoint ev url filename st
            in endpoint_loop ev filename urls (if \<not> ok then False else all_valid) st1)
         else endpoint_loop ev filename urls all_valid st)"

definition validate_api_endpoints :: "env \<Rightarrow> string \<Rightarrow> string \<Rightarrow> validator \<Rightarrow> (string + bool) \<times> validator" where
  "validate_api_endpoints ev content filename st =
     endpoint_loop ev filename (find_urls content) True st"

subsection \<open>validate_curl_commands\<close>

definition curl_step :: "string \<Rightarrow> curl_command \<Rightarrow> validator \<Rightarrow> validator" where
  "curl_step filename cmd_info st =
     (let cmd = command cmd_info in
        if \<not> startswith (strip cmd) ''curl'' then st
        else
          (let st1 = (if contains cmd ''api.lyceum.technology'' then
                        (let sta = (if \<not> contains cmd ''Authorization: Bearer''
                                       \<and> \<not> contains cmd ''Authorization: Bearer <''
                                    then add_warning (Missing_Authorization filename (take 100 cmd)) st
                                    else st)
                         in if \<not> contains cmd ''Content-Type: application/json''
                               \<and> contains cmd ''-d ''
                            then add_warning (Missing_Content_Type filename (take 100 cmd)) sta
                            else sta)
                      else st)
           in if \<not> contains cmd ''<TOKEN>'' \<and> \<not> contains cmd ''<token>''
                 \<and> \<not> contains cmd ''Bearer <''
              then (if contains cmd ''api.lyceum.technology'' \<and> contains cmd ''Authorization:''
                    then add_warning (Possible_Real_Token filename (take 100 cmd)) st1
                    else st1)
              else st1))"

definition validate_curl_commands :: "curl_command list \<Rightarrow> string \<Rightarrow> validator \<Rightarrow> bool \<times> validator" where
  "validate_curl_commands cmds filename st = (True, fold (curl_step filename) cmds st)"

subsection \<open>validate_json_examples\<close>

text \<open>
  The trailing-comma pattern is \<^verbatim>\<open>,(\s*[}\]])\<close>, replaced by the template \<^verbatim>\<open>\1\<close>: a comma,
  the whole whitespace run, then a closing brace or bracket.
\<close>

definition comma_match :: "string \<Rightarrow> (string \<times> nat) option" where
  "comma_match s =
     (case s of
        [] \<Rightarrow> None
      | c # r \<Rightarrow>
          if c = CHR '','' then
            (let ws = takeWhile isspace r in
               case dropWhile isspace r of
                 [] \<Rightarrow> None
               | b # r2 \<Rightarrow>
                   if b = CHR ''}'' \<or> b = CHR '']''
                   then Some (ws @ [b], 1 + length ws + 1) else None)
          else None)"

definition clean_json_line :: "string \<Rightarrow> string" where
  "clean_json_line line0 =
     (let line = (if contains line0 ''//''
                  then (case split ''//'' line0 of [] \<Rightarrow> [] | x # xs \<Rightarrow> x)
                  else line0)
      in re_sub comma_match
           (\<lambda>g. expand_template [backslash, CHR ''1''] (\<lambda>k. if k = 1 then g else [])) line)"

definition clean_json_code :: "string \<Rightarrow> string" where
  "clean_json_code json_code = join [newline] (map clean_json_line (split [newline] json_code))"

definition placeholders :: "string list" where
  "placeholders = [''<token>'', ''<TOKEN>'', ''...'', ''your-'', ''YOUR_'', ''EXAMPLE'']"

definition is_template_json :: "string \<Rightarrow> bool" where
  "is_template_json json_code = list_ex (\<lambda>placeholder. contains json_code placeholder) placeholders"

text \<open>
  The loop over the blocks, with \<open>all_valid\<close> and the validator. Only \<open>JSONDecodeError\<close> is
  caught: any other exception of the parser ends the loop and leaves the function.
\<close>

fun json_loop :: "env \<Rightarrow> string \<Rightarrow> code_block list \<Rightarrow> bool \<Rightarrow> validator \<Rightarrow> (string + bool) \<times> validator" where
  "json_loop ev filename [] all_valid st = (Inr all_valid, st)"
| "json_loop ev filename (b # blocks) all_valid st =
     (if language b = ''json'' then
        (case json_loads ev (clean_json_code (code b)) of
           Json_Parsed \<Rightarrow> json_loop ev filename blocks all_valid st
         | Json_Decode_Error e \<Rightarrow>
             if \<not> is_template_json (code b)
             then json_loop ev filename blocks False (add_error (Invalid_JSON filename e) st)
             else json_loop ev filename blocks all_valid (add_warning (Template_JSON filename e) st)
         | Json_Exception e \<Rightarrow> (Inl e, st))
      else json_loop ev filename blocks all_valid st)"

definition validate_json_examples :: "env \<Rightarrow> string \<Rightarrow> string \<Rightarrow> validator \<Rightarrow> (string + bool) \<times> validator" where
  "validate_json_examples ev content filename st =
     json_loop ev filename (extract_code_blocks content) True st"

subsection \<open>validate_file\<close>

text \<open>
  The loop over the blocks of a file, with the result record and the validator. For each
  JSON block the whole content is checked again; an exception of that check ends the loop.
\<close>

fun block_loop :: "env \<Rightarrow> string \<Rightarrow> string \<Rightarrow> code_block list \<Rightarrow> file_result \<Rightarrow> validator \<Rightarrow> (string + file_result) \<times> validator" where
  "block_loop ev content filename [] results st = (Inr results, st)"
| "block_loop ev content filename (b # blocks) results st =
     (if language b = ''python'' then
        (let results1 = results\<lparr>python_blocks := python_blocks results + 1\<rparr>;
             st1 = snd (validate_python_syntax ev (code b) filename st);
             st2 = snd (validate_python_imports ev (code b) filename st1)
         in block_loop ev content filename blocks results1 st2)
      else if language b = ''json'' then
        (let results1 = results\<lparr>json_blocks := json_blocks results + 1\<rparr>
         in case validate_json_examples ev content filename st of
              (Inl e, st1) \<Rightarrow> (Inl e, st1)
            | (Inr ok, st1) \<Rightarrow> block_loop ev content filename blocks results1 st1)
      else block_loop ev content filename blocks results st)"

text \<open>\<open>validate_file\<close>, given the content read from the file and the file's relative name.\<close>

definition validate_file :: "env \<Rightarrow> string \<Rightarrow> string \<Rightarrow> validator \<Rightarrow> (string + file_result) \<times> validator" where
  "validate_file ev content filename st =
     (let results = \<lparr>file_name = filename, python_blocks = 0, json_blocks = 0,
                     curl_commands = 0, api_endpoints = 0, n_errors = 0, n_warnings = 0\<rparr>;
          code_blocks = extract_code_blocks content
      in case block_loop ev content filename code_blocks results st of
           (Inl e, st1) \<Rightarrow> (Inl e, st1)
         | (Inr results1, st1) \<Rightarrow>
             (let cmds = extract_curl_commands content;
                  results2 = results1\<lparr>curl_commands := length cmds\<rparr>;
                  st2 = snd (validate_curl_commands cmds filename st1)
              in case validate_api_endpoints ev content filename st2 of
                   (Inl e, st3) \<Rightarrow> (Inl e, st3)
                 | (Inr ok, st3) \<Rightarrow> (Inr results2, st3)))"

subsection \<open>generate_report\<close>

text \<open>
  The report's three glyphs lie beyond U+00FF; they stand here as their UTF-8 bytes.
\<close>

definition cross_mark :: string where
  "cross_mark = [CHR 0xE2, CHR 0x9D, CHR 0x8C]"

definition warning_sign :: string where
  "warning_sign = [CHR 0xE2, CHR 0x9A, CHR 0xA0, CHR 0xEF, CHR 0xB8, CHR 0x8F]"

definition check_mark :: string where
  "check_mark = [CHR 0xE2, CHR 0x9C, CHR 0x85]"

definition report_file_lines :: "file_result \<Rightarrow> string list" where
  "report_file_lines result =
     [''### '' @ file_name result,
      ''- Python blocks: '' @ str_nat (python_blocks result),
      ''- JSON blocks: '' @ str_nat (json_blocks result),
      ''- Curl commands: '' @ str_nat (curl_commands result),
      []]"

definition generate_report :: "env \<Rightarrow> validator \<Rightarrow> string" where
  "generate_report ev st =
     join [newline]
       ([''# Documentation Validation Report'',
         ''Generated: '' @ now_isoformat ev,
         [],
         ''## Summary'',
         ''- Files validated: '' @ str_nat (length (validated_examples st)),
         ''- Total errors: '' @ str_nat (length (errors st)),
         ''- Total warnings: '' @ str_nat (length (warnings st)),
         []]
        @ (if validated_examples st \<noteq> []
           then [''## File Validation Results'']
                @ concat (map report_file_lines (validated_examples st))
           else [])
        @ (if errors st \<noteq> []
           then [''## Errors'']
                @ map (\<lambda>e. ''- '' @ cross_mark @ '' '' @ render_entry e) (errors st) @ [[]]
           else [])
        @ (if warnings st \<noteq> []
           then [''## Warnings'']
                @ map (\<lambda>w. ''- '' @ warning_sign @ '' '' @ render_entry w) (warnings st) @ [[]]
           else [])
        @ (if errors st = [] \<and> warnings st = []
           then [''## '' @ check_mark @ '' All validations passed!'']
           else []))"

subsection \<open>run_validation and main\<close>

text \<open>
  A documentation file is the path the directory scan gives, its name relative to the
  documentation directory, and what reading it gives: the content, or the text of the
  exception raised (\<open>Inl\<close>). An exception while a file is read or validated becomes one
  error entry, naming the path, and the run goes on with the next file; what the
  validation recorded before the exception stays.
\<close>

record doc_file =
  file_path :: string
  relative_name :: string
  file_content :: "string + string"

definition file_step :: "env \<Rightarrow> doc_file \<Rightarrow> validator \<Rightarrow> validator" where
  "file_step ev f st =
     (case file_content f of
        Inl e \<Rightarrow> add_error (Failed_To_Validate (file_path f) e) st
      | Inr content \<Rightarrow>
          (case validate_file ev content (relative_name f) st of
             (Inr result, st1) \<Rightarrow> st1\<lparr>validated_examples := validated_examples st1 @ [result]\<rparr>
           | (Inl e, st1) \<Rightarrow> add_error (Failed_To_Validate (file_path f) e) st1))"

text \<open>
  The report is generated and written after the loop, outside any \<open>try\<close>: an exception of
  the writing leaves \<open>run_validation\<close>.
\<close>

definition run_validation :: "env \<Rightarrow> doc_file list \<Rightarrow> validator \<Rightarrow> (string + bool) \<times> validator" where
  "run_validation ev mdx_files st =
     (let st1 = fold (file_step ev) mdx_files st;
          report = generate_report ev st1
      in case write_report ev (docs_dir st1) report of
           Some e \<Rightarrow> (Inl e, st1)
         | None \<Rightarrow> (Inr (length (errors st1) = 0), st1))"

text \<open>
  \<open>main\<close>: the exit code of the process, the last thing it prints, and the validator at
  the end. An exception that leaves \<open>run_validation\<close> is not caught: the interpreter
  prints the traceback and the process ends with exit status 1. The command line is
  taken as parsed (\<open>dir\<close> and \<open>token\<close> are its two options), and printing to the console
  is taken to succeed.
\<close>

datatype console_message =
    Failed_With_Errors | Completed_With_Warnings | All_Passed | Traceback string

definition main :: "env \<Rightarrow> string \<Rightarrow> string option \<Rightarrow> doc_file list \<Rightarrow> int \<times> console_message \<times> validator" where
  "main ev dir token mdx_files =
     (case run_validation ev mdx_files (init_validator dir token) of
        (Inl e, st) \<Rightarrow> (1, Traceback e, st)
      | (Inr success, st) \<Rightarrow>
          if \<not> success then (1, Failed_With_Errors, st)
          else if warnings st \<noteq> [] then (0, Completed_With_Warnings, st)
          else (0, All_Passed, st))"

section \<open>Example inputs\<close>

text \<open>The curl command of the fixer's example: a POST with a JSON body and no Content-Type.\<close>

definition curl_example :: string where
  "curl_example =
     ''curl -X POST https://api.lyceum.technology/x -d '' @ [squote] @ ''{'' @ [dquote] @ ''a'' @ [dquote] @ '':1}'' @ [squote]"

text \<open>The same command with its data argument on a continuation line.\<close>

definition continued_example :: string where
  "continued_example =
     ''curl -X POST https://api.lyceum.technology/x '' @ [backslash, newline] @
     ''  -d '' @ [squote] @ ''{'' @ [dquote] @ ''a'' @ [dquote] @ '':1}'' @ [squote]"

text \<open>A command with no backslash whose only data argument spans three lines.\<close>

definition multiline_example :: string where
  "multiline_example =
     ''curl -X POST https://api.lyceum.technology/x -d '' @ [squote] @ ''{'' @ [newline] @
     ''  '' @ [dquote] @ ''a'' @ [dquote] @ '':1'' @ [newline] @ ''}'' @ [squote]"

text \<open>
  A command whose first data argument spans three lines and is followed, after a
  continuation line, by a data argument on a single line.
\<close>

definition two_data_example :: string where
  "two_data_example =
     ''curl -X POST https://api.lyceum.technology/x -d '' @ [squote] @ ''{'' @ [newline] @
     ''  '' @ [dquote] @ ''a'' @ [dquote] @ '':1'' @ [newline] @ ''}'' @ [squote] @ '' '' @ [backslash, newline] @
     ''  -d '' @ [squote] @ ''{'' @ [dquote] @ ''b'' @ [dquote] @ '':2}'' @ [squote]"

definition fence :: string where
  "fence = [backtick, backtick, backtick]"

definition valid_json_text :: string where
  "valid_json_text = ''{'' @ [dquote] @ ''a'' @ [dquote] @ '': 1}''"

text \<open>A document that is one JSON block with a trailing comma.\<close>

definition json_example :: string where
  "json_example =
     fence @ ''json'' @ [newline] @
     ''{'' @ [dquote] @ ''a'' @ [dquote] @ '': 1,}'' @ [newline] @
     fence"

text \<open>
  Three JSON blocks: one that parses once cleaned, one that does not, and one that does
  not and holds a placeholder.
\<close>

definition json_doc :: string where
  "json_doc =
     fence @ ''json'' @ [newline] @ ''{'' @ [dquote] @ ''a'' @ [dquote] @ '': 1,}'' @ [newline] @ fence @ [newline] @
     fence @ ''json'' @ [newline] @ ''{'' @ [dquote] @ ''a'' @ [dquote] @ '': }'' @ [newline] @ fence @ [newline] @
     fence @ ''json'' @ [newline] @ ''{'' @ [dquote] @ ''token'' @ [dquote] @ '': <TOKEN>}'' @ [newline] @ fence"

text \<open>
  A text of a thousand opening brackets: nested deeper than the interpreter's default
  recursion limit allows, so that \<open>json.loads\<close> raises \<open>RecursionError\<close> on it.
\<close>

definition deep_text :: string where
  "deep_text = replicate 1000 (CHR ''['')"

definition recursion_error :: string where
  "recursion_error =
     ''maximum recursion depth exceeded while decoding a JSON array from a unicode string''"

text \<open>
  Three JSON blocks: the deep one, then (\<open>deep_tail\<close>) one that does not parse and holds no
  placeholder, and one that does not parse and holds a placeholder.
\<close>

definition deep_tail :: string where
  "deep_tail =
     [newline] @
     fence @ ''json'' @ [newline] @ ''{'' @ [dquote] @ ''a'' @ [dquote] @ '': }'' @ [newline] @ fence @ [newline] @
     fence @ ''json'' @ [newline] @ ''{'' @ [dquote] @ ''token'' @ [dquote] @ '': <TOKEN>}'' @ [newline] @ fence"

definition deep_doc :: string where
  "deep_doc = fence @ ''json'' @ [newline] @ deep_text @ [newline] @ fence @ deep_tail"

definition plain_doc :: string where
  "plain_doc = ''# Billing'' @ [newline] @ ''Credits are charged per run.''"

definition credits_url :: string where
  "credits_url = ''https://api.lyceum.technology/api/v2/external/billing/credits''"

definition credits_doc :: string where
  "credits_doc = ''Check your balance at '' @ credits_url @ ''.''"





definition unpublished :: string where
  "unpublished = ''some_unpublished_pkg_xyz''"

definition numpy_block :: string where
  "numpy_block = ''import numpy''"

definition unpublished_block :: string where
  "unpublished_block = ''import some_unpublished_pkg_xyz''"

text \<open>The text of the \<open>FileNotFoundError\<close> raised when the report is opened for writing.\<close>

definition missing_directory_error :: string where
  "missing_directory_error =
     ''[Errno 2] No such file or directory: '' @ [squote] @ ''missing/validation_report.md'' @ [squote]"

text \<open>
  An environment: a parser that knows the two import blocks, a module finder that finds
  three standard modules and nothing else, a JSON parser that accepts one text, raises
  \<open>RecursionError\<close> on a text nested a thousand deep and \<open>JSONDecodeError\<close> otherwise, an
  API that answers 401, and a file system in which the directory \<open>missing\<close> does not exist.
\<close>

definition example_env :: env where
  "example_env =
     \<lparr>ast_parse = (\<lambda>s. if s = ''import numpy'' then Parsed (Node [Import [''numpy'']])
                       else if s = ''import some_unpublished_pkg_xyz''
                         then Parsed (Node [Import [''some_unpublished_pkg_xyz'']])
                       else SyntaxError ''invalid syntax''),
      find_spec = (\<lambda>name. if name \<in> set [''os'', ''sys'', ''json''] then Spec_Found else Spec_None),
      json_loads = (\<lambda>s. if 1000 \<le> length (takeWhile (\<lambda>c. c = CHR ''['') s)
                          then Json_Exception recursion_error
                        else if s = valid_json_text then Json_Parsed
                        else Json_Decode_Error ''Expecting value''),
      http_get = (\<lambda>url headers. Response 401 Body_Invalid),
      http_options = (\<lambda>url headers. Response 200 Body_Invalid),
      now_isoformat = ''2025-01-01T00:00:00'',
      write_report = (\<lambda>dir text. if dir = ''missing'' then Some missing_directory_error
                                  else None)\<rparr>"

section \<open>Notions used in the statements\<close>

text \<open>
  \<open>json_failure\<close>: the text of the \<open>JSONDecodeError\<close> on a JSON-tagged block after cleaning,
  if the parser raises one. \<open>json_exception\<close>: the text of any other exception it raises
  there. \<open>is_invalid_json\<close> and \<open>is_auth_failed\<close> select entries by their format.
\<close>

definition json_failure :: "env \<Rightarrow> code_block \<Rightarrow> string option" where
  "json_failure ev b =
     (if language b = ''json'' then
        (case json_loads ev (clean_json_code (code b)) of
           Json_Decode_Error e \<Rightarrow> Some e
         | Json_Parsed \<Rightarrow> None
         | Json_Exception e \<Rightarrow> None)
      else None)"

definition json_exception :: "env \<Rightarrow> code_block \<Rightarrow> string option" where
  "json_exception ev b =
     (if language b = ''json'' then
        (case json_loads ev (clean_json_code (code b)) of
           Json_Exception e \<Rightarrow> Some e
         | Json_Parsed \<Rightarrow> None
         | Json_Decode_Error e \<Rightarrow> None)
      else None)"

fun is_invalid_json :: "entry \<Rightarrow> bool" where
  "is_invalid_json (Invalid_JSON f e) = True"
| "is_invalid_json x = False"

fun is_auth_failed :: "entry \<Rightarrow> bool" where
  "is_auth_failed (Auth_Failed f u) = True"
| "is_auth_failed x = False"

definition json_error_count :: "env \<Rightarrow> string \<Rightarrow> nat" where
  "json_error_count ev content =
     length (filter (\<lambda>b. \<not> is_template_json (code b))
               (filter (\<lambda>b. json_failure ev b \<noteq> None) (extract_code_blocks content)))"

text \<open>
  A data argument is a match of the second group of the header pattern; it is on a single
  line when the match holds no newline.
\<close>

definition is_data_argument :: "string \<Rightarrow> bool" where
  "is_data_argument s = (data_match s \<noteq> None)"

definition single_line_data :: "string \<Rightarrow> bool" where
  "single_line_data s =
     (case data_match s of None \<Rightarrow> False | Some d \<Rightarrow> newline \<notin> set (take d s))"

text \<open>
  \<open>spans_hold_backslash is_arg content\<close>: wherever \<open>curl -X POST\<close> occurs in the text, every
  span from there to a later position at which \<open>is_arg\<close> holds contains a backslash.
\<close>

definition spans_hold_backslash :: "(string \<Rightarrow> bool) \<Rightarrow> string \<Rightarrow> bool" where
  "spans_hold_backslash is_arg content =
     (\<forall>r \<in> set (suffixes content). startswith r ''curl -X POST'' \<longrightarrow>
        (\<forall>mid \<in> set (prefixes (drop 12 r)).
           is_arg (drop (length mid) (drop 12 r)) \<longrightarrow> backslash \<in> set mid))"

section \<open>Properties of the fixer\<close>

lemma startswith_append: "startswith s p \<longleftrightarrow> (\<exists>r. s = p @ r)"
  by (induction s p rule: startswith.induct) auto

lemma re_sub_literal_same:
  "lit \<noteq> [] \<Longrightarrow> re_sub (literal_match lit) (\<lambda>_. lit) s = s"
proof (induction s rule: length_induct)
  case (1 s)
  show ?case
  proof (cases s)
    case Nil
    then show ?thesis by simp
  next
    case (Cons c cs)
    show ?thesis
    proof (cases "startswith (c # cs) lit")
      case True
      then obtain r where r: "c # cs = lit @ r" by (auto simp: startswith_append)
      with \<open>lit \<noteq> []\<close> have cs: "drop (length lit - 1) cs = r"
        by (cases lit) auto
      have "length r < length s" using r Cons \<open>lit \<noteq> []\<close>
        by (metis length_append length_greater_0_conv less_add_same_cancel2)
      with 1 have ih: "re_sub (literal_match lit) (\<lambda>_. lit) r = r" by blast
      have "re_sub (literal_match lit) (\<lambda>_. lit) (c # cs) =
              lit @ re_sub (literal_match lit) (\<lambda>_. lit) (drop (length lit - 1) cs)"
        using True by (simp add: literal_match_def)
      also have "\<dots> = lit @ r" by (simp only: cs ih)
      finally show ?thesis using Cons r by simp
    next
      case False
      with 1 Cons show ?thesis by (simp add: literal_match_def)
    qed
  qed
qed

text \<open>
  C10. The claim says that the escape normalization turns backslash-n into
  backslash-backslash-n, and that a second application adds a further backslash. The code
  does not: the replacement is a template, in which the two backslashes stand for one, so
  each match is replaced by itself and \<open>fix_json_formatting\<close> returns every text as it
  was, the two characters backslash, n included.
\<close>

theorem fix_json_formatting_identity:
  "fix_json_formatting content = content
   \<and> fix_json_formatting [backslash, CHR ''n''] = [backslash, CHR ''n'']
   \<and> apply_fixes (apply_fixes [backslash, CHR ''n'']) = apply_fixes [backslash, CHR ''n'']"
proof -
  have id: "\<And>c. fix_json_formatting c = c"
    by (simp add: fix_json_formatting_def re_sub_literal_same)
  have "apply_fixes [backslash, CHR ''n''] = [backslash, CHR ''n'']"
    by code_simp
  with id show ?thesis by simp
qed

text \<open>
  C4. On the example command the three rewrites insert the Content-Type header (with its
  continuation-line join) right before the \<open>-d\<close> argument, and applying them again to the
  result changes nothing: \<open>process_file\<close> leaves that file as it is.
\<close>

theorem fixer_inserts_header_once:
  "apply_fixes curl_example =
     ''curl -X POST https://api.lyceum.technology/x '' @
     ''-H '' @ [dquote] @ ''Content-Type: application/json'' @ [dquote] @ '' '' @ [backslash, newline] @ ''  '' @
     ''-d '' @ [squote] @ ''{'' @ [dquote] @ ''a'' @ [dquote] @ '':1}'' @ [squote]
   \<and> apply_fixes (apply_fixes curl_example) = apply_fixes curl_example
   \<and> process_file (Some (apply_fixes curl_example)) = (False, Some (apply_fixes curl_example))"
  by code_simp

lemma re_sub_no_match:
  "(\<forall>r \<in> set (suffixes s). m r = None) \<Longrightarrow> re_sub m f s = s"
  by (induction s) simp_all

lemma curl_lazy_Some:
  "curl_lazy s = Some (k, d) \<Longrightarrow>
     k \<le> length s \<and> backslash \<notin> set (take k s) \<and> data_match (drop k s) = Some d"
proof (induction s arbitrary: k)
  case Nil
  then show ?case by (simp split: option.splits)
next
  case (Cons c cs)
  show ?case
  proof (cases "data_match (c # cs)")
    case (Some d')
    with Cons.prems show ?thesis by simp
  next
    case None
    with Cons.prems obtain k' where k': "c \<noteq> backslash" "curl_lazy cs = Some (k', d)" "k = Suc k'"
      by (auto split: if_splits option.splits)
    from Cons.IH[OF k'(2)] k'(1,3) show ?thesis by simp
  qed
qed

lemma startswith_take: "startswith r p \<Longrightarrow> length p \<le> n \<Longrightarrow> startswith (take n r) p"
  by (auto simp: startswith_append)

lemma curl_post_match_Some:
  assumes "curl_post_match r = Some ((curl_cmd, data_part), n)"
  shows "startswith r ''curl -X POST''
         \<and> curl_cmd = take (length curl_cmd) r
         \<and> 12 \<le> length curl_cmd
         \<and> length curl_cmd \<le> length r
         \<and> backslash \<notin> set (drop 12 curl_cmd)
         \<and> data_match (drop (length curl_cmd) r) \<noteq> None"
proof -
  from assms have sw: "startswith r ''curl -X POST''"
    by (simp add: curl_post_match_def split: if_splits)
  then have len: "12 \<le> length r" by (auto simp: startswith_append)
  from assms sw obtain k d where kd: "curl_lazy (drop 12 r) = Some (k, d)" "curl_cmd = take (12 + k) r"
    by (auto simp: curl_post_match_def split: option.splits)
  from curl_lazy_Some[OF kd(1)] have p: "k \<le> length r - 12" "backslash \<notin> set (take k (drop 12 r))"
    "data_match (drop k (drop 12 r)) = Some d" by simp_all
  have l: "length curl_cmd = 12 + k" using kd(2) p(1) len by simp
  have d12: "drop 12 curl_cmd = take k (drop 12 r)" using kd(2) by (simp add: drop_take)
  show ?thesis using sw l p d12 kd(2) len by (simp add: add.commute)
qed

text \<open>
  C9. A match of the header-insertion pattern has no backslash between \<open>curl -X POST\<close> and
  its data argument. So when every span from an occurrence of \<open>curl -X POST\<close> to a data
  argument after it (a match of the pattern's second group, on one line or on several)
  holds a backslash, \<open>fix_curl_headers\<close> returns the text unchanged. The data arguments
  that span several lines count: the pattern's second group matches across newlines.
\<close>

theorem continuation_blocks_header:
  "(curl_post_match r = Some ((curl_cmd, data_part), n) \<longrightarrow>
      startswith curl_cmd ''curl -X POST'' \<and> backslash \<notin> set (drop 12 curl_cmd))
   \<and> (spans_hold_backslash is_data_argument content \<longrightarrow> fix_curl_headers content = content)"
proof -
  have a: "startswith curl_cmd ''curl -X POST'' \<and> backslash \<notin> set (drop 12 curl_cmd)"
    if m: "curl_post_match r = Some ((curl_cmd, data_part), n)"
  proof -
    from curl_post_match_Some[OF m] have
      sw: "startswith r ''curl -X POST''" and c: "curl_cmd = take (length curl_cmd) r"
      and l: "12 \<le> length curl_cmd" and b: "backslash \<notin> set (drop 12 curl_cmd)"
      by simp_all
    have "length ''curl -X POST'' \<le> length curl_cmd" using l by simp
    from startswith_take[OF sw this] have "startswith curl_cmd ''curl -X POST''"
      by (simp only: c[symmetric])
    with b show ?thesis by simp
  qed
  have b: "fix_curl_headers content = content"
    if "spans_hold_backslash is_data_argument content"
  proof -
    from that have h: "\<forall>r \<in> set (suffixes content). startswith r ''curl -X POST'' \<longrightarrow>
          (\<forall>mid \<in> set (prefixes (drop 12 r)).
             data_match (drop (length mid) (drop 12 r)) \<noteq> None \<longrightarrow> backslash \<in> set mid)"
      by (simp only: spans_hold_backslash_def is_data_argument_def)
    have "curl_post_match r = None" if rs: "r \<in> set (suffixes content)" for r
    proof (rule ccontr)
      assume "curl_post_match r \<noteq> None"
      then obtain curl_cmd data_part n where m: "curl_post_match r = Some ((curl_cmd, data_part), n)"
        by auto
      from curl_post_match_Some[OF m] have sw: "startswith r ''curl -X POST''"
        and c: "curl_cmd = take (length curl_cmd) r" and l: "12 \<le> length curl_cmd"
        and lr: "length curl_cmd \<le> length r"
        and nb: "backslash \<notin> set (drop 12 curl_cmd)"
        and dm: "data_match (drop (length curl_cmd) r) \<noteq> None" by simp_all
      let ?mid = "drop 12 curl_cmd"
      have mid: "?mid = take (length curl_cmd - 12) (drop 12 r)"
        using c by (metis drop_take)
      then have pm: "?mid \<in> set (prefixes (drop 12 r))"
        by (simp add: in_set_prefixes take_is_prefix)
      have lm: "length ?mid = length curl_cmd - 12" by simp
      have "drop (length ?mid) (drop 12 r) = drop (length curl_cmd) r"
        using l by (simp add: lm)
      with dm have "data_match (drop (length ?mid) (drop 12 r)) \<noteq> None" by simp
      with h rs sw pm have "backslash \<in> set ?mid" by blast
      with nb show False by simp
    qed
    then show ?thesis by (simp add: fix_curl_headers_def re_sub_no_match)
  qed
  from a b show ?thesis by blast
qed

lemma continued_example_starts:
  "\<forall>r \<in> set (suffixes continued_example). startswith r ''curl -X POST'' \<longrightarrow> r = continued_example"
  by code_simp

lemma continued_example_mids:
  "\<forall>mid \<in> set (prefixes (drop 12 continued_example)).
      is_data_argument (drop (length mid) (drop 12 continued_example)) \<longrightarrow> backslash \<in> set mid"
  by code_simp

lemma continued_example_spans: "spans_hold_backslash is_data_argument continued_example"
  unfolding spans_hold_backslash_def
  using continued_example_starts continued_example_mids by blast

theorem continuation_blocks_header_witness:
  "fix_curl_headers continued_example = continued_example
   \<and> data_match (''-d '' @ [squote] @ ''{'' @ [dquote] @ ''a'' @ [dquote] @ '':1}'' @ [squote]) = Some 12"
proof -
  have "data_match (''-d '' @ [squote] @ ''{'' @ [dquote] @ ''a'' @ [dquote] @ '':1}'' @ [squote]) = Some 12"
    by code_simp
  with continuation_blocks_header[of _ _ _ _ continued_example] continued_example_spans
  show ?thesis by blast
qed

lemma multiline_example_starts:
  "\<forall>r \<in> set (suffixes multiline_example). startswith r ''curl -X POST'' \<longrightarrow> r = multiline_example"
  by code_simp

lemma multiline_example_mids:
  "\<forall>mid \<in> set (prefixes (drop 12 multiline_example)).
      single_line_data (drop (length mid) (drop 12 multiline_example)) \<longrightarrow> backslash \<in> set mid"
  by code_simp

lemma multiline_example_spans: "spans_hold_backslash single_line_data multiline_example"
  unfolding spans_hold_backslash_def
  using multiline_example_starts multiline_example_mids by blast

lemma two_data_example_starts:
  "\<forall>r \<in> set (suffixes two_data_example). startswith r ''curl -X POST'' \<longrightarrow> r = two_data_example"
  by code_simp

lemma two_data_example_mids:
  "\<forall>mid \<in> set (prefixes (drop 12 two_data_example)).
      single_line_data (drop (length mid) (drop 12 two_data_example)) \<longrightarrow> backslash \<in> set mid"
  by code_simp

lemma two_data_example_spans: "spans_hold_backslash single_line_data two_data_example"
  unfolding spans_hold_backslash_def
  using two_data_example_starts two_data_example_mids by blast

text \<open>
  With the data arguments restricted to those on a single line, the condition no longer
  keeps the text unchanged. In the first command the only data argument spans three
  lines, so no span to a single-line data argument is without a backslash; in the second
  a single-line data argument follows a continuation line, and the span to it holds the
  backslash. Neither command has a backslash before its first data argument, and both
  receive the header.
\<close>

theorem multiline_data_receives_header:
  "spans_hold_backslash single_line_data multiline_example
   \<and> fix_curl_headers multiline_example =
       ''curl -X POST https://api.lyceum.technology/x '' @
       ''-H '' @ [dquote] @ ''Content-Type: application/json'' @ [dquote] @ '' '' @ [backslash, newline] @ ''  '' @
       ''-d '' @ [squote] @ ''{'' @ [newline] @ ''  '' @ [dquote] @ ''a'' @ [dquote] @ '':1'' @ [newline] @ ''}'' @ [squote]
   \<and> fix_curl_headers multiline_example \<noteq> multiline_example
   \<and> spans_hold_backslash single_line_data two_data_example
   \<and> single_line_data (drop 66 two_data_example)
   \<and> fix_curl_headers two_data_example =
       ''curl -X POST https://api.lyceum.technology/x '' @
       ''-H '' @ [dquote] @ ''Content-Type: application/json'' @ [dquote] @ '' '' @ [backslash, newline] @ ''  '' @
       ''-d '' @ [squote] @ ''{'' @ [newline] @ ''  '' @ [dquote] @ ''a'' @ [dquote] @ '':1'' @ [newline] @ ''}'' @ [squote] @
       '' '' @ [backslash, newline] @ ''  -d '' @ [squote] @ ''{'' @ [dquote] @ ''b'' @ [dquote] @ '':2}'' @ [squote]
   \<and> fix_curl_headers two_data_example \<noteq> two_data_example"
proof -
  have a: "fix_curl_headers multiline_example =
       ''curl -X POST https://api.lyceum.technology/x '' @
       ''-H '' @ [dquote] @ ''Content-Type: application/json'' @ [dquote] @ '' '' @ [backslash, newline] @ ''  '' @
       ''-d '' @ [squote] @ ''{'' @ [newline] @ ''  '' @ [dquote] @ ''a'' @ [dquote] @ '':1'' @ [newline] @ ''}'' @ [squote]"
    by code_simp
  have b: "fix_curl_headers multiline_example \<noteq> multiline_example"
    by code_simp
  have c: "single_line_data (drop 66 two_data_example)"
    by code_simp
  have d: "fix_curl_headers two_data_example =
       ''curl -X POST https://api.lyceum.technology/x '' @
       ''-H '' @ [dquote] @ ''Content-Type: application/json'' @ [dquote] @ '' '' @ [backslash, newline] @ ''  '' @
       ''-d '' @ [squote] @ ''{'' @ [newline] @ ''  '' @ [dquote] @ ''a'' @ [dquote] @ '':1'' @ [newline] @ ''}'' @ [squote] @
       '' '' @ [backslash, newline] @ ''  -d '' @ [squote] @ ''{'' @ [dquote] @ ''b'' @ [dquote] @ '':2}'' @ [squote]"
    by code_simp
  have e: "fix_curl_headers two_data_example \<noteq> two_data_example"
    by code_simp
  from multiline_example_spans two_data_example_spans a b c d e show ?thesis
    by (simp only:, blast?)
qed

section \<open>Properties of the validator\<close>

subsection \<open>JSON loop\<close>

lemma json_loop_effect:
  "json_loop ev f blocks ok st = (out, st') \<Longrightarrow>
     errors st' = errors st @
        map (\<lambda>b. Invalid_JSON f (the (json_failure ev b)))
            (filter (\<lambda>b. \<not> is_template_json (code b))
               (filter (\<lambda>b. json_failure ev b \<noteq> None)
                  (takeWhile (\<lambda>b. json_exception ev b = None) blocks)))
   \<and> warnings st' = warnings st @
        map (\<lambda>b. Template_JSON f (the (json_failure ev b)))
            (filter (\<lambda>b. is_template_json (code b))
               (filter (\<lambda>b. json_failure ev b \<noteq> None)
                  (takeWhile (\<lambda>b. json_exception ev b = None) blocks)))
   \<and> auth_token st' = auth_token st
   \<and> docs_dir st' = docs_dir st
   \<and> validated_examples st' = validated_examples st
   \<and> (dropWhile (\<lambda>b. json_exception ev b = None) blocks = [] \<longrightarrow>
        out = Inr (ok \<and> filter (\<lambda>b. \<not> is_template_json (code b))
                          (filter (\<lambda>b. json_failure ev b \<noteq> None) blocks) = []))
   \<and> (\<forall>b rest. dropWhile (\<lambda>b. json_exception ev b = None) blocks = b # rest \<longrightarrow>
        out = Inl (the (json_exception ev b)))"
proof (induction blocks arbitrary: ok st)
  case Nil
  then show ?case by auto
next
  case (Cons b blocks)
  show ?case
  proof (cases "language b = ''json''")
    case False
    then have n: "json_failure ev b = None" "json_exception ev b = None"
      by (simp_all add: json_failure_def json_exception_def)
    from Cons.prems False have "json_loop ev f blocks ok st = (out, st')" by simp
    from Cons.IH[OF this] n show ?thesis by simp
  next
    case True
    show ?thesis
    proof (cases "json_loads ev (clean_json_code (code b))")
      case Json_Parsed
      with True have n: "json_failure ev b = None" "json_exception ev b = None"
        by (simp_all add: json_failure_def json_exception_def)
      from Cons.prems True Json_Parsed have "json_loop ev f blocks ok st = (out, st')" by simp
      from Cons.IH[OF this] n show ?thesis by simp
    next
      case (Json_Decode_Error e)
      with True have n: "json_failure ev b = Some e" "json_exception ev b = None"
        by (simp_all add: json_failure_def json_exception_def)
      show ?thesis
      proof (cases "is_template_json (code b)")
        case t: True
        from Cons.prems True Json_Decode_Error t
        have "json_loop ev f blocks ok (add_warning (Template_JSON f e) st) = (out, st')" by simp
        from Cons.IH[OF this] n t show ?thesis by (simp add: add_warning_def)
      next
        case t: False
        from Cons.prems True Json_Decode_Error t
        have "json_loop ev f blocks False (add_error (Invalid_JSON f e) st) = (out, st')" by simp
        from Cons.IH[OF this] n t show ?thesis
          by (simp add: add_error_def)
      qed
    next
      case (Json_Exception e)
      with True have n: "json_failure ev b = None" "json_exception ev b = Some e"
        by (simp_all add: json_failure_def json_exception_def)
      from Cons.prems True Json_Exception have "out = Inl e" "st' = st" by simp_all
      with n show ?thesis by simp
    qed
  qed
qed

lemma validate_json_examples_effect:
  "validate_json_examples ev content f st = (out, st') \<Longrightarrow>
     errors st' = errors st @
        map (\<lambda>b. Invalid_JSON f (the (json_failure ev b)))
            (filter (\<lambda>b. \<not> is_template_json (code b))
               (filter (\<lambda>b. json_failure ev b \<noteq> None)
                  (takeWhile (\<lambda>b. json_exception ev b = None) (extract_code_blocks content))))
   \<and> warnings st' = warnings st @
        map (\<lambda>b. Template_JSON f (the (json_failure ev b)))
            (filter (\<lambda>b. is_template_json (code b))
               (filter (\<lambda>b. json_failure ev b \<noteq> None)
                  (takeWhile (\<lambda>b. json_exception ev b = None) (extract_code_blocks content))))
   \<and> auth_token st' = auth_token st
   \<and> docs_dir st' = docs_dir st
   \<and> validated_examples st' = validated_examples st
   \<and> (dropWhile (\<lambda>b. json_exception ev b = None) (extract_code_blocks content) = [] \<longrightarrow>
        out = Inr (filter (\<lambda>b. \<not> is_template_json (code b))
                     (filter (\<lambda>b. json_failure ev b \<noteq> None) (extract_code_blocks content)) = []))
   \<and> (\<forall>b rest. dropWhile (\<lambda>b. json_exception ev b = None) (extract_code_blocks content) = b # rest \<longrightarrow>
        out = Inl (the (json_exception ev b)))"
  unfolding validate_json_examples_def
  by (drule json_loop_effect) simp

lemma json_example_blocks:
  "extract_code_blocks json_example =
     [\<lparr>language = ''json'', code = ''{'' @ [dquote] @ ''a'' @ [dquote] @ '': 1,}'',
       start_pos = 0, end_pos = 21\<rparr>]"
  by code_simp

lemma json_example_clean:
  "clean_json_code (''{'' @ [dquote] @ ''a'' @ [dquote] @ '': 1,}'') = valid_json_text"
  by code_simp

lemma json_example_ok:
  assumes "json_loads ev valid_json_text = Json_Parsed"
  shows "validate_json_examples ev json_example filename st = (Inr True, st)"
  using assms json_example_clean
  by (simp add: validate_json_examples_def json_example_blocks)

text \<open>
  C2. One call of \<open>validate_json_examples\<close> goes through the blocks of the document in
  order, up to the first JSON-tagged block on whose cleaned text the parser raises an
  exception other than \<open>JSONDecodeError\<close>: that exception is not caught and leaves the
  function. For the JSON-tagged blocks reached before it whose cleaned text does not parse,
  the call records one \<open>Invalid JSON\<close> error for each block without a placeholder token,
  and one \<open>Template JSON\<close> warning, and no error, for each block with one; nothing else is
  added. The call returns when no block raises such an exception. (The blocks are those
  the extraction yields; a fence with an empty body yields none.) The block with the
  trailing comma is cleaned to the text without it, and when the JSON parser accepts that
  text the document holding just this block leaves both lists as they were.
\<close>

theorem json_parse_failures_recorded:
  "(let blocks = extract_code_blocks content;
        reached = takeWhile (\<lambda>b. json_exception ev b = None) blocks;
        failing = filter (\<lambda>b. json_failure ev b \<noteq> None) reached;
        outcome = validate_json_examples ev content filename st
    in errors (snd outcome) = errors st @
         map (\<lambda>b. Invalid_JSON filename (the (json_failure ev b)))
             (filter (\<lambda>b. \<not> is_template_json (code b)) failing)
     \<and> warnings (snd outcome) = warnings st @
         map (\<lambda>b. Template_JSON filename (the (json_failure ev b)))
             (filter (\<lambda>b. is_template_json (code b)) failing)
     \<and> fst outcome =
         (case dropWhile (\<lambda>b. json_exception ev b = None) blocks of
            [] \<Rightarrow> Inr (filter (\<lambda>b. \<not> is_template_json (code b)) failing = [])
          | b # rest \<Rightarrow> Inl (the (json_exception ev b))))
   \<and> clean_json_code (''{'' @ [dquote] @ ''a'' @ [dquote] @ '': 1,}'') = valid_json_text
   \<and> (json_loads ev valid_json_text = Json_Parsed \<longrightarrow>
        validate_json_examples ev json_example filename st = (Inr True, st))"
proof -
  obtain out st' where r: "validate_json_examples ev content filename st = (out, st')"
    by (cases "validate_json_examples ev content filename st")
  define blocks where "blocks = extract_code_blocks content"
  define reached where "reached = takeWhile (\<lambda>b. json_exception ev b = None) blocks"
  from validate_json_examples_effect[OF r]
  have e: "errors st' = errors st @
         map (\<lambda>b. Invalid_JSON filename (the (json_failure ev b)))
             (filter (\<lambda>b. \<not> is_template_json (code b))
                (filter (\<lambda>b. json_failure ev b \<noteq> None) reached))"
    and w: "warnings st' = warnings st @
         map (\<lambda>b. Template_JSON filename (the (json_failure ev b)))
             (filter (\<lambda>b. is_template_json (code b))
                (filter (\<lambda>b. json_failure ev b \<noteq> None) reached))"
    and o1: "dropWhile (\<lambda>b. json_exception ev b = None) blocks = [] \<longrightarrow>
        out = Inr (filter (\<lambda>b. \<not> is_template_json (code b))
                     (filter (\<lambda>b. json_failure ev b \<noteq> None) blocks) = [])"
    and o2: "\<forall>b rest. dropWhile (\<lambda>b. json_exception ev b = None) blocks = b # rest \<longrightarrow>
        out = Inl (the (json_exception ev b))"
    unfolding blocks_def reached_def by blast+
  have o: "out =
         (case dropWhile (\<lambda>b. json_exception ev b = None) blocks of
            [] \<Rightarrow> Inr (filter (\<lambda>b. \<not> is_template_json (code b))
                         (filter (\<lambda>b. json_failure ev b \<noteq> None) reached) = [])
          | b # rest \<Rightarrow> Inl (the (json_exception ev b)))"
  proof (cases "dropWhile (\<lambda>b. json_exception ev b = None) blocks")
    case Nil
    then have "reached = blocks"
      unfolding reached_def by (metis append_Nil2 takeWhile_dropWhile_id)
    with o1 Nil show ?thesis by (simp only: list.case, blast?)
  next
    case (Cons b rest)
    with o2 show ?thesis by (simp only: list.case, blast?)
  qed
  have a: "clean_json_code (''{'' @ [dquote] @ ''a'' @ [dquote] @ '': 1,}'') = valid_json_text"
    by (rule json_example_clean)
  have b: "json_loads ev valid_json_text = Json_Parsed \<longrightarrow>
        validate_json_examples ev json_example filename st = (Inr True, st)"
    using json_example_ok by blast
  have "errors (snd (validate_json_examples ev content filename st)) = errors st'"
       "warnings (snd (validate_json_examples ev content filename st)) = warnings st'"
       "fst (validate_json_examples ev content filename st) = out"
    using r by simp_all
  with e w o a b show ?thesis
    unfolding Let_def blocks_def reached_def by (simp only:, blast?)
qed

subsection \<open>Frames of the checks\<close>

lemma python_syntax_frame:
  "auth_token (snd (validate_python_syntax ev c f st)) = auth_token st
   \<and> docs_dir (snd (validate_python_syntax ev c f st)) = docs_dir st
   \<and> (\<exists>es. errors (snd (validate_python_syntax ev c f st)) = errors st @ es
          \<and> set es \<subseteq> range (Python_Syntax_Error f) \<union> range (Error_Parsing_Python f))"
  by (auto simp: validate_python_syntax_def add_error_def split: parse_result.splits)

lemma python_imports_frame:
  "auth_token (snd (validate_python_imports ev c f st)) = auth_token st
   \<and> docs_dir (snd (validate_python_imports ev c f st)) = docs_dir st
   \<and> (\<exists>es. errors (snd (validate_python_imports ev c f st)) = errors st @ es
          \<and> set es \<subseteq> range (Error_Checking_Imports f))"
  by (auto simp: validate_python_imports_def add_error_def add_warning_def Let_def
           split: parse_result.splits sum.splits)

lemma python_checks_frame:
  "auth_token (snd (validate_python_imports ev c f (snd (validate_python_syntax ev c f st)))) = auth_token st
   \<and> docs_dir (snd (validate_python_imports ev c f (snd (validate_python_syntax ev c f st)))) = docs_dir st
   \<and> filter is_invalid_json (errors (snd (validate_python_imports ev c f (snd (validate_python_syntax ev c f st)))))
       = filter is_invalid_json (errors st)
   \<and> filter is_auth_failed (errors (snd (validate_python_imports ev c f (snd (validate_python_syntax ev c f st)))))
       = filter is_auth_failed (errors st)"
proof -
  let ?st1 = "snd (validate_python_syntax ev c f st)"
  let ?st2 = "snd (validate_python_imports ev c f ?st1)"
  obtain es1 where e1: "errors ?st1 = errors st @ es1"
     "set es1 \<subseteq> range (Python_Syntax_Error f) \<union> range (Error_Parsing_Python f)"
    using python_syntax_frame by blast
  obtain es2 where e2: "errors ?st2 = errors ?st1 @ es2" "set es2 \<subseteq> range (Error_Checking_Imports f)"
    using python_imports_frame by blast
  have n: "filter is_invalid_json es1 = []" "filter is_invalid_json es2 = []"
          "filter is_auth_failed es1 = []" "filter is_auth_failed es2 = []"
    using e1(2) e2(2) by (auto simp: filter_empty_conv)
  have t: "auth_token ?st2 = auth_token st" "docs_dir ?st2 = docs_dir st"
    using python_imports_frame python_syntax_frame by simp_all
  show ?thesis using e1(1) e2(1) n t by simp
qed

lemma json_examples_frame:
  "auth_token (snd (validate_json_examples ev content f st)) = auth_token st
   \<and> docs_dir (snd (validate_json_examples ev content f st)) = docs_dir st
   \<and> filter is_auth_failed (errors (snd (validate_json_examples ev content f st))) =
       filter is_auth_failed (errors st)"
proof -
  obtain out st' where r: "validate_json_examples ev content f st = (out, st')"
    by (cases "validate_json_examples ev content f st")
  have "filter is_auth_failed (map (\<lambda>b. Invalid_JSON f (the (json_failure ev b))) xs) = []" for xs
    by (induction xs) simp_all
  with validate_json_examples_effect[OF r] r show ?thesis by simp
qed

lemma all_reached:
  "\<forall>b \<in> set blocks. json_exception ev b = None \<Longrightarrow>
     takeWhile (\<lambda>b. json_exception ev b = None) blocks = blocks
     \<and> dropWhile (\<lambda>b. json_exception ev b = None) blocks = []"
  by (induction blocks) simp_all

lemma json_examples_count:
  assumes "\<forall>b \<in> set (extract_code_blocks content). json_exception ev b = None"
  shows "\<exists>ok st'. validate_json_examples ev content f st = (Inr ok, st')
           \<and> length (filter is_invalid_json (errors st')) =
               length (filter is_invalid_json (errors st)) + json_error_count ev content"
proof -
  obtain out st' where r: "validate_json_examples ev content f st = (out, st')"
    by (cases "validate_json_examples ev content f st")
  have m: "filter is_invalid_json (map (\<lambda>b. Invalid_JSON f (the (json_failure ev b))) xs) =
        map (\<lambda>b. Invalid_JSON f (the (json_failure ev b))) xs" for xs
    by (induction xs) simp_all
  from all_reached[OF assms]
  have tw: "takeWhile (\<lambda>b. json_exception ev b = None) (extract_code_blocks content)
              = extract_code_blocks content"
    and dw: "dropWhile (\<lambda>b. json_exception ev b = None) (extract_code_blocks content) = []"
    by blast+
  from validate_json_examples_effect[OF r]
  have e: "errors st' = errors st @ map (\<lambda>b. Invalid_JSON f (the (json_failure ev b)))
            (filter (\<lambda>b. \<not> is_template_json (code b))
               (filter (\<lambda>b. json_failure ev b \<noteq> None)
                 (takeWhile (\<lambda>b. json_exception ev b = None) (extract_code_blocks content))))"
    and o: "dropWhile (\<lambda>b. json_exception ev b = None) (extract_code_blocks content) = [] \<longrightarrow>
        out = Inr (filter (\<lambda>b. \<not> is_template_json (code b))
                     (filter (\<lambda>b. json_failure ev b \<noteq> None) (extract_code_blocks content)) = [])"
    by blast+
  from o dw obtain ok where out: "out = Inr ok" by blast
  from e have e': "errors st' = errors st @ map (\<lambda>b. Invalid_JSON f (the (json_failure ev b)))
            (filter (\<lambda>b. \<not> is_template_json (code b))
               (filter (\<lambda>b. json_failure ev b \<noteq> None) (extract_code_blocks content)))"
    unfolding tw .
  have "length (filter is_invalid_json (errors st')) =
               length (filter is_invalid_json (errors st)) + json_error_count ev content"
    unfolding e' json_error_count_def by (simp add: m)
  with r out show ?thesis by blast
qed

subsection \<open>Block loop\<close>

lemma block_loop_auth:
  "auth_token (snd (block_loop ev content f blocks res st)) = auth_token st
   \<and> docs_dir (snd (block_loop ev content f blocks res st)) = docs_dir st
   \<and> filter is_auth_failed (errors (snd (block_loop ev content f blocks res st))) =
       filter is_auth_failed (errors st)"
proof (induction blocks arbitrary: res st)
  case Nil
  then show ?case by simp
next
  case (Cons b blocks)
  show ?case
  proof (cases "language b = ''python''")
    case True
    with Cons.IH python_checks_frame[of ev "code b" f st] show ?thesis by (simp add: Let_def)
  next
    case False
    show ?thesis
    proof (cases "language b = ''json''")
      case j: False
      with False Cons.IH show ?thesis by simp
    next
      case j: True
      obtain out st1 where r: "validate_json_examples ev content f st = (out, st1)"
        by (cases "validate_json_examples ev content f st")
      from json_examples_frame[of ev content f st] r
      have fr: "auth_token st1 = auth_token st" "docs_dir st1 = docs_dir st"
          "filter is_auth_failed (errors st1) = filter is_auth_failed (errors st)" by simp_all
      show ?thesis
      proof (cases out)
        case (Inl e)
        with False j r fr show ?thesis by simp
      next
        case (Inr ok)
        with False j r fr Cons.IH[of "res\<lparr>json_blocks := json_blocks res + 1\<rparr>" st1]
        show ?thesis by simp
      qed
    qed
  qed
qed

lemma block_loop_count:
  assumes "\<forall>b \<in> set (extract_code_blocks content). json_exception ev b = None"
  shows "\<exists>res' st'. block_loop ev content f blocks res st = (Inr res', st')
     \<and> res' = res\<lparr>python_blocks := python_blocks res + length (filter (\<lambda>b. language b = ''python'') blocks),
                   json_blocks := json_blocks res + length (filter (\<lambda>b. language b = ''json'') blocks)\<rparr>
     \<and> length (filter is_invalid_json (errors st')) =
         length (filter is_invalid_json (errors st))
           + length (filter (\<lambda>b. language b = ''json'') blocks) * json_error_count ev content"
proof (induction blocks arbitrary: res st)
  case Nil
  then show ?case by simp
next
  case (Cons b blocks)
  show ?case
  proof (cases "language b = ''python''")
    case True
    let ?st2 = "snd (validate_python_imports ev (code b) f (snd (validate_python_syntax ev (code b) f st)))"
    from python_checks_frame[of ev "code b" f st]
    have c: "filter is_invalid_json (errors ?st2) = filter is_invalid_json (errors st)" by simp
    from Cons.IH[of "res\<lparr>python_blocks := python_blocks res + 1\<rparr>" ?st2] True c
    show ?thesis by (auto simp: Let_def)
  next
    case False
    show ?thesis
    proof (cases "language b = ''json''")
      case j: False
      with False Cons.IH[of res st] show ?thesis by auto
    next
      case j: True
      from json_examples_count[OF assms, of f st] obtain ok st1 where
        r: "validate_json_examples ev content f st = (Inr ok, st1)"
        and c: "length (filter is_invalid_json (errors st1)) =
               length (filter is_invalid_json (errors st)) + json_error_count ev content"
        by blast
      from Cons.IH[of "res\<lparr>json_blocks := json_blocks res + 1\<rparr>" st1] False j r c
      show ?thesis by auto
    qed
  qed
qed

subsection \<open>Curl check and endpoint loop\<close>

lemma curl_step_errors:
  "errors (curl_step f c st) = errors st \<and> auth_token (curl_step f c st) = auth_token st
   \<and> docs_dir (curl_step f c st) = docs_dir st"
  by (simp add: curl_step_def Let_def add_warning_def)

lemma curl_fold_errors:
  "errors (fold (curl_step f) cs st) = errors st \<and> auth_token (fold (curl_step f) cs st) = auth_token st
   \<and> docs_dir (fold (curl_step f) cs st) = docs_dir st"
  by (induction cs arbitrary: st) (simp_all add: curl_step_errors)

lemma lyceum_structure_frame:
  "errors (snd (validate_lyceum_endpoint_structure u f st)) = errors st
   \<and> auth_token (snd (validate_lyceum_endpoint_structure u f st)) = auth_token st
   \<and> docs_dir (snd (validate_lyceum_endpoint_structure u f st)) = docs_dir st
   \<and> fst (validate_lyceum_endpoint_structure u f st)"
  by (simp add: validate_lyceum_endpoint_structure_def add_warning_def)

lemma test_endpoint_frame:
  "errors (snd (test_endpoint ev u f st)) = errors st
   \<and> auth_token (snd (test_endpoint ev u f st)) = auth_token st
   \<and> docs_dir (snd (test_endpoint ev u f st)) = docs_dir st"
  by (simp add: test_endpoint_def add_warning_def split: http_result.splits)

lemma test_lyceum_frame:
  "auth_token (snd (test_lyceum_endpoint ev u f st)) = auth_token st
   \<and> docs_dir (snd (test_lyceum_endpoint ev u f st)) = docs_dir st
   \<and> errors (snd (test_lyceum_endpoint ev u f st)) =
       errors st @ (case lyceum_request ev u (auth_headers st) of
                      Response status body \<Rightarrow> if status = 401 then [Auth_Failed f u] else []
                    | RequestException e \<Rightarrow> [])"
  by (simp add: test_lyceum_endpoint_def Let_def add_warning_def add_error_def
           split: http_result.splits body_json.splits)

lemma endpoint_loop_frame:
  "auth_token (snd (endpoint_loop ev f urls ok st)) = auth_token st
   \<and> docs_dir (snd (endpoint_loop ev f urls ok st)) = docs_dir st
   \<and> filter is_invalid_json (errors (snd (endpoint_loop ev f urls ok st))) =
       filter is_invalid_json (errors st)"
proof (induction urls arbitrary: ok st)
  case Nil
  then show ?case by simp
next
  case (Cons u urls)
  let ?u = "clean_url u"
  obtain ok1 st1 where s1: "validate_lyceum_endpoint_structure ?u f st = (ok1, st1)"
    by (cases "validate_lyceum_endpoint_structure ?u f st")
  have f1: "errors st1 = errors st" "auth_token st1 = auth_token st" "docs_dir st1 = docs_dir st"
    using lyceum_structure_frame[of ?u f st] s1 by simp_all
  obtain out2 st2 where s2: "test_lyceum_endpoint ev ?u f st1 = (out2, st2)"
    by (cases "test_lyceum_endpoint ev ?u f st1")
  have f2: "auth_token st2 = auth_token st" "docs_dir st2 = docs_dir st"
    "filter is_invalid_json (errors st2) = filter is_invalid_json (errors st)"
    using test_lyceum_frame[of ev ?u f st1] s2 f1
    by (simp_all split: http_result.splits)
  obtain ok3 st3 where s3: "test_endpoint ev ?u f st = (ok3, st3)"
    by (cases "test_endpoint ev ?u f st")
  have f3: "errors st3 = errors st" "auth_token st3 = auth_token st" "docs_dir st3 = docs_dir st"
    using test_endpoint_frame[of ev ?u f st] s3 by simp_all
  show ?case
    using Cons.IH f1 f2 f3
    by (cases out2) (simp_all add: Let_def s1 s2 s3)
qed

lemma auth_headers_token: "auth_token st1 = auth_token st \<Longrightarrow> auth_headers st1 = auth_headers st"
  by (simp add: auth_headers_def)

lemma tested_contains_domain:
  "url \<in> set lyceum_test_endpoints \<Longrightarrow> contains url ''api.lyceum.technology''"
  by (auto simp: lyceum_test_endpoints_def)

lemma endpoint_loop_unauthorized:
  assumes "truthy (auth_token st)"
      and "lyceum_request ev url (auth_headers st) = Response 401 body"
      and "set (filter (\<lambda>u. u \<in> set lyceum_test_endpoints) (map clean_url urls)) \<subseteq> {url}"
  shows "\<exists>ok' st'. endpoint_loop ev f urls ok st = (Inr ok', st')
           \<and> auth_token st' = auth_token st
           \<and> errors st' = errors st @
               replicate (length (filter (\<lambda>u. u \<in> set lyceum_test_endpoints) (map clean_url urls)))
                         (Auth_Failed f url)"
  using assms
proof (induction urls arbitrary: ok st)
  case Nil
  then show ?case by simp
next
  case (Cons u urls)
  let ?u = "clean_url u"
  have rest: "set (filter (\<lambda>u. u \<in> set lyceum_test_endpoints) (map clean_url urls)) \<subseteq> {url}"
    using Cons.prems(3) by (auto split: if_splits)
  obtain ok1 st1 where s1: "validate_lyceum_endpoint_structure ?u f st = (ok1, st1)"
    by (cases "validate_lyceum_endpoint_structure ?u f st")
  have f1: "errors st1 = errors st" "auth_token st1 = auth_token st"
    using lyceum_structure_frame[of ?u f st] s1 by simp_all
  obtain ok3 st3 where s3: "test_endpoint ev ?u f st = (ok3, st3)"
    by (cases "test_endpoint ev ?u f st")
  have f3: "errors st3 = errors st" "auth_token st3 = auth_token st"
    using test_endpoint_frame[of ev ?u f st] s3 by simp_all
  show ?case
  proof (cases "?u \<in> set lyceum_test_endpoints")
    case True
    then have u: "?u = url" using Cons.prems(3) by auto
    have dom: "contains ?u ''api.lyceum.technology''" using True by (rule tested_contains_domain)
    have rq: "lyceum_request ev url (auth_headers st1) = Response 401 body"
      using Cons.prems(2) auth_headers_token[OF f1(2)] by simp
    let ?st2 = "add_error (Auth_Failed f url) st1"
    have t2: "test_lyceum_endpoint ev ?u f st1 = (Inr False, ?st2)"
      using rq u by (simp add: test_lyceum_endpoint_def)
    have p2: "truthy (auth_token ?st2)" "lyceum_request ev url (auth_headers ?st2) = Response 401 body"
      using Cons.prems(1,2) f1 by (simp_all add: add_error_def auth_headers_def)
    from Cons.IH[OF p2 rest, of False] obtain ok' st' where
      r: "endpoint_loop ev f urls False ?st2 = (Inr ok', st')"
         "auth_token st' = auth_token ?st2"
         "errors st' = errors ?st2 @
               replicate (length (filter (\<lambda>u. u \<in> set lyceum_test_endpoints) (map clean_url urls)))
                         (Auth_Failed f url)"
      by blast
    have "endpoint_loop ev f (u # urls) ok st = (Inr ok', st')"
      using True dom s1 t2 r(1) Cons.prems(1) f1 by (simp add: Let_def)
    moreover have "auth_token st' = auth_token st" using r(2) f1 by (simp add: add_error_def)
    moreover have "errors st' = errors st @
               replicate (length (filter (\<lambda>u. u \<in> set lyceum_test_endpoints) (map clean_url (u # urls))))
                         (Auth_Failed f url)"
      using r(3) f1 True by (simp add: add_error_def)
    ultimately show ?thesis by blast
  next
    case False
    have p1: "truthy (auth_token st1)" "lyceum_request ev url (auth_headers st1) = Response 401 body"
      using Cons.prems(1,2) f1 auth_headers_token[OF f1(2)] by simp_all
    have p3: "truthy (auth_token st3)" "lyceum_request ev url (auth_headers st3) = Response 401 body"
      using Cons.prems(1,2) f3 auth_headers_token[OF f3(2)] by simp_all
    show ?thesis
    proof (cases "contains ?u ''api.lyceum.technology''")
      case True
      from Cons.IH[OF p1 rest, of "if \<not> ok1 then False else ok"] f1 False True s1
      show ?thesis by (auto simp: Let_def)
    next
      case d: False
      show ?thesis
      proof (cases "?u \<in> set test_endpoints")
        case True
        from Cons.IH[OF p3 rest, of "if \<not> ok3 then False else ok"] f3 False d True s3
        show ?thesis by (auto simp: Let_def)
      next
        case t: False
        from Cons.IH[OF Cons.prems(1,2) rest, of ok] False d t
        show ?thesis by (auto simp: Let_def)
      qed
    qed
  qed
qed

subsection \<open>validate_file, file_step and the run\<close>

lemma validate_file_frame:
  "auth_token (snd (validate_file ev content f st)) = auth_token st
   \<and> docs_dir (snd (validate_file ev content f st)) = docs_dir st"
proof -
  let ?res0 = "\<lparr>file_name = f, python_blocks = 0, json_blocks = 0,
                     curl_commands = 0, api_endpoints = 0, n_errors = 0, n_warnings = 0\<rparr>"
  obtain out1 st1 where s1:
    "block_loop ev content f (extract_code_blocks content) ?res0 st = (out1, st1)"
    by (cases "block_loop ev content f (extract_code_blocks content) ?res0 st")
  have a1: "auth_token st1 = auth_token st" "docs_dir st1 = docs_dir st"
    using block_loop_auth[of ev content f "extract_code_blocks content" ?res0 st] s1 by simp_all
  show ?thesis
  proof (cases out1)
    case (Inl e)
    with s1 a1 show ?thesis by (simp add: validate_file_def)
  next
    case (Inr res1)
    let ?st2 = "fold (curl_step f) (extract_curl_commands content) st1"
    have a2: "auth_token ?st2 = auth_token st" "docs_dir ?st2 = docs_dir st"
      using a1 by (simp_all add: curl_fold_errors)
    obtain out3 st3 where s3: "endpoint_loop ev f (find_urls content) True ?st2 = (out3, st3)"
      by (cases "endpoint_loop ev f (find_urls content) True ?st2")
    have a3: "auth_token st3 = auth_token st" "docs_dir st3 = docs_dir st"
      using endpoint_loop_frame[of ev f "find_urls content" True ?st2] s3 a2 by simp_all
    have "snd (validate_file ev content f st) = st3"
      using s1 Inr s3
      by (cases out3)
         (simp_all add: validate_file_def Let_def validate_curl_commands_def validate_api_endpoints_def)
    with a3 show ?thesis by simp
  qed
qed

lemma file_step_docs_dir: "docs_dir (file_step ev f st) = docs_dir st"
proof (cases "file_content f")
  case (Inl e)
  then show ?thesis by (simp add: file_step_def add_error_def)
next
  case (Inr content)
  obtain out st1 where v: "validate_file ev content (relative_name f) st = (out, st1)"
    by (cases "validate_file ev content (relative_name f) st")
  with validate_file_frame[of ev content "relative_name f" st] have "docs_dir st1 = docs_dir st"
    by simp
  with Inr v show ?thesis by (cases out) (simp_all add: file_step_def add_error_def)
qed







subsection \<open>Documents without blocks and URLs\<close>

lemma re_finditer_no_match:
  "(\<forall>r \<in> set (suffixes s). m r = None) \<Longrightarrow> re_finditer m pos s = []"
  by (induction s arbitrary: pos) simp_all

lemma unmatched_document_clean:
  assumes "\<forall>r \<in> set (suffixes content). fence_match r = None"
      and "\<forall>r \<in> set (suffixes content). url_match r = None"
  shows "validate_file ev content filename st =
           (Inr \<lparr>file_name = filename, python_blocks = 0, json_blocks = 0,
                 curl_commands = 0, api_endpoints = 0, n_errors = 0, n_warnings = 0\<rparr>, st)"
proof -
  have b: "extract_code_blocks content = []"
    using assms(1) by (simp add: extract_code_blocks_def re_finditer_no_match map_filter_simps)
  have u: "find_urls content = []"
    using assms(2) by (simp add: find_urls_def re_finditer_no_match)
  show ?thesis
    by (simp add: validate_file_def b u extract_curl_commands_def validate_curl_commands_def
                  validate_api_endpoints_def)
qed

lemma suffix_startswith_contains:
  "r \<in> set (suffixes s) \<Longrightarrow> startswith r p \<Longrightarrow> contains s p"
proof (induction s)
  case Nil
  then show ?case by (cases p) auto
next
  case (Cons c cs)
  then show ?case by auto
qed

lemma fence_match_startswith: "fence_match r \<noteq> None \<Longrightarrow> startswith r fence"
  by (simp add: fence_match_def fence_def split: if_splits)

lemma url_match_startswith:
  "url_match r \<noteq> None \<Longrightarrow> startswith r ''https://'' \<or> startswith r ''http://''"
  by (simp add: url_match_def split: if_splits)

lemma no_fence_text:
  "\<not> contains content fence \<Longrightarrow> \<forall>r \<in> set (suffixes content). fence_match r = None"
  using fence_match_startswith suffix_startswith_contains by blast

lemma no_url_text:
  "\<not> contains content ''http://'' \<Longrightarrow> \<not> contains content ''https://'' \<Longrightarrow>
     \<forall>r \<in> set (suffixes content). url_match r = None"
  using url_match_startswith suffix_startswith_contains by blast

text \<open>
  C7. A document in which the fence pattern matches nowhere and the URL pattern matches
  nowhere leaves the validator as it was (no error and no warning added), and all the
  counts of its result are zero. This is so in particular for a text that holds neither
  three back-ticks in a row nor \<open>http://\<close> nor \<open>https://\<close>.
\<close>

theorem plain_document_is_clean:
  "((\<forall>r \<in> set (suffixes content). fence_match r = None)
      \<and> (\<forall>r \<in> set (suffixes content). url_match r = None) \<longrightarrow>
    validate_file ev content filename st =
      (Inr \<lparr>file_name = filename, python_blocks = 0, json_blocks = 0,
            curl_commands = 0, api_endpoints = 0, n_errors = 0, n_warnings = 0\<rparr>, st))
   \<and> (\<not> contains content fence \<and> \<not> contains content ''http://''
      \<and> \<not> contains content ''https://'' \<longrightarrow>
    validate_file ev content filename st =
      (Inr \<lparr>file_name = filename, python_blocks = 0, json_blocks = 0,
            curl_commands = 0, api_endpoints = 0, n_errors = 0, n_warnings = 0\<rparr>, st))"
  using unmatched_document_clean no_fence_text no_url_text by blast

subsection \<open>Authentication failures\<close>

lemma json_exception_language: "json_exception ev b \<noteq> None \<Longrightarrow> language b = ''json''"
  by (simp add: json_exception_def split: if_splits)

lemma block_loop_raises:
  assumes "\<exists>b \<in> set (extract_code_blocks content). json_exception ev b \<noteq> None"
      and "\<exists>b \<in> set blocks. language b = ''json''"
  shows "\<exists>e st'. block_loop ev content f blocks res st = (Inl e, st')"
  using assms(2)
proof (induction blocks arbitrary: res st)
  case Nil
  then show ?case by simp
next
  case (Cons b blocks)
  show ?case
  proof (cases "language b = ''python''")
    case True
    then have "language b \<noteq> ''json''" by simp
    with Cons.prems have "\<exists>b \<in> set blocks. language b = ''json''" by auto
    from Cons.IH[OF this, of "res\<lparr>python_blocks := python_blocks res + 1\<rparr>"
           "snd (validate_python_imports ev (code b) f (snd (validate_python_syntax ev (code b) f st)))"]
      True
    show ?thesis by (simp add: Let_def)
  next
    case False
    show ?thesis
    proof (cases "language b = ''json''")
      case j: True
      obtain out st1 where r: "validate_json_examples ev content f st = (out, st1)"
        by (cases "validate_json_examples ev content f st")
      from assms(1)
      have "dropWhile (\<lambda>b. json_exception ev b = None) (extract_code_blocks content) \<noteq> []"
        by (simp add: dropWhile_eq_Nil_conv)
      then obtain x xs where
        "dropWhile (\<lambda>b. json_exception ev b = None) (extract_code_blocks content) = x # xs"
        by (cases "dropWhile (\<lambda>b. json_exception ev b = None) (extract_code_blocks content)") auto
      with validate_json_examples_effect[OF r] have "out = Inl (the (json_exception ev x))"
        by blast
      with False j r show ?thesis by simp
    next
      case j: False
      with Cons.prems have "\<exists>b \<in> set blocks. language b = ''json''" by auto
      from Cons.IH[OF this, of res st] False j show ?thesis by simp
    qed
  qed
qed

lemma validate_file_raises:
  assumes "\<exists>b \<in> set (extract_code_blocks content). json_exception ev b \<noteq> None"
  shows "\<exists>e st'. validate_file ev content f st = (Inl e, st')
           \<and> filter is_auth_failed (errors st') = filter is_auth_failed (errors st)"
proof -
  let ?res0 = "\<lparr>file_name = f, python_blocks = 0, json_blocks = 0,
                     curl_commands = 0, api_endpoints = 0, n_errors = 0, n_warnings = 0\<rparr>"
  from assms have j: "\<exists>b \<in> set (extract_code_blocks content). language b = ''json''"
    using json_exception_language by blast
  from block_loop_raises[OF assms j, of f ?res0 st] obtain e st1 where
    s1: "block_loop ev content f (extract_code_blocks content) ?res0 st = (Inl e, st1)"
    by blast
  have a1: "filter is_auth_failed (errors st1) = filter is_auth_failed (errors st)"
    using block_loop_auth[of ev content f "extract_code_blocks content" ?res0 st] s1 by simp
  have "validate_file ev content f st = (Inl e, st1)"
    using s1 by (simp add: validate_file_def)
  with a1 show ?thesis by blast
qed

lemma validate_file_unauthorized:
  assumes h: "\<forall>b \<in> set (extract_code_blocks content). json_exception ev b = None"
      and t: "truthy (auth_token st)"
      and u: "filter (\<lambda>u. u \<in> set lyceum_test_endpoints) (map clean_url (find_urls content)) = [url]"
      and r: "lyceum_request ev url (auth_headers st) = Response 401 body"
  shows "\<exists>res st'. validate_file ev content f st = (Inr res, st')
           \<and> filter is_auth_failed (errors st') = filter is_auth_failed (errors st) @ [Auth_Failed f url]
           \<and> (extract_code_blocks content = [] \<longrightarrow> errors st' = errors st @ [Auth_Failed f url])"
proof -
  let ?res0 = "\<lparr>file_name = f, python_blocks = 0, json_blocks = 0,
                     curl_commands = 0, api_endpoints = 0, n_errors = 0, n_warnings = 0\<rparr>"
  from block_loop_count[OF h, of f "extract_code_blocks content" ?res0 st] obtain res1 st1 where
    s1: "block_loop ev content f (extract_code_blocks content) ?res0 st = (Inr res1, st1)"
    by blast
  have a1: "auth_token st1 = auth_token st"
           "filter is_auth_failed (errors st1) = filter is_auth_failed (errors st)"
    using block_loop_auth[of ev content f "extract_code_blocks content" ?res0 st] s1 by simp_all
  have e1: "extract_code_blocks content = [] \<longrightarrow> st1 = st"
    using s1 by auto
  let ?st2 = "fold (curl_step f) (extract_curl_commands content) st1"
  have a2: "auth_token ?st2 = auth_token st" "errors ?st2 = errors st1"
    using a1 by (simp_all add: curl_fold_errors)
  have t2: "truthy (auth_token ?st2)" using t a2 by simp
  have r2: "lyceum_request ev url (auth_headers ?st2) = Response 401 body"
    using r auth_headers_token[OF a2(1)] by simp
  have sub: "set (filter (\<lambda>u. u \<in> set lyceum_test_endpoints) (map clean_url (find_urls content))) \<subseteq> {url}"
    by (simp only: u) simp
  from endpoint_loop_unauthorized[OF t2 r2 sub, of f True] obtain ok' st3 where
    s3: "endpoint_loop ev f (find_urls content) True ?st2 = (Inr ok', st3)"
    and e3: "errors st3 = errors ?st2 @
               replicate (length (filter (\<lambda>u. u \<in> set lyceum_test_endpoints)
                                    (map clean_url (find_urls content))))
                         (Auth_Failed f url)"
    by blast
  have e3': "errors st3 = errors st1 @ [Auth_Failed f url]"
    using e3 a2(2) by (simp only: u) simp
  have v: "validate_file ev content f st =
             (Inr (res1\<lparr>curl_commands := length (extract_curl_commands content)\<rparr>), st3)"
    using s1 s3
    by (simp add: validate_file_def Let_def validate_curl_commands_def validate_api_endpoints_def)
  have "filter is_auth_failed (errors st3) = filter is_auth_failed (errors st) @ [Auth_Failed f url]"
    using e3' a1(2) by simp
  moreover have "extract_code_blocks content = [] \<longrightarrow> errors st3 = errors st @ [Auth_Failed f url]"
    using e3' e1 by simp
  ultimately show ?thesis using v by blast
qed

text \<open>
  C6. \<open>test_lyceum_endpoint\<close> records an authentication error on status 401 and a
  forbidden-access warning, and no error, on status 403. For a run over one document, with
  a token that is supplied (not empty), in which exactly one of the URLs found is a tested
  real endpoint and the response to its request has status 401: the run does not succeed
  (its success flag is false when the report is written, and the process ends with exit
  status 1 in every case), and when the request is sent, exactly one error entry is an
  authentication failure (the only error at all when the document has no code block); its
  line mentions the failed authentication. The request is sent when the validation of
  the file reaches the endpoints, that is when no JSON-tagged block makes the parser
  raise an exception other than \<open>JSONDecodeError\<close>; otherwise the validation of the file
  ends before, with one failed-to-validate error and no authentication failure.
\<close>

theorem auth_failure_fails_run:
  "(lyceum_request ev url (auth_headers st) = Response 401 body \<longrightarrow>
      test_lyceum_endpoint ev url filename st = (Inr False, add_error (Auth_Failed filename url) st))
   \<and> (lyceum_request ev url (auth_headers st) = Response 403 body \<longrightarrow>
      test_lyceum_endpoint ev url filename st = (Inr True, add_warning (Forbidden_Access filename url) st))
   \<and> (truthy token
        \<and> filter (\<lambda>u. u \<in> set lyceum_test_endpoints) (map clean_url (find_urls content)) = [url]
        \<and> lyceum_request ev url (auth_headers (init_validator dir token)) = Response 401 body \<longrightarrow>
      (let run = run_validation ev
                   [\<lparr>file_path = path, relative_name = filename, file_content = Inr content\<rparr>]
                   (init_validator dir token)
       in fst run \<noteq> Inr True
        \<and> (write_report ev dir (generate_report ev (snd run)) = None \<longrightarrow> fst run = Inr False)
        \<and> fst (main ev dir token
                  [\<lparr>file_path = path, relative_name = filename, file_content = Inr content\<rparr>]) = 1
        \<and> filter is_auth_failed (errors (snd run)) =
            (if \<forall>b \<in> set (extract_code_blocks content). json_exception ev b = None
             then [Auth_Failed filename url] else [])
        \<and> (extract_code_blocks content = [] \<longrightarrow> errors (snd run) = [Auth_Failed filename url])))
   \<and> render_entry (Auth_Failed filename url) =
       filename @ '': Authentication failed for '' @ url @ '' - invalid token?''"
proof -
  have p1: "lyceum_request ev url (auth_headers st) = Response 401 body \<longrightarrow>
      test_lyceum_endpoint ev url filename st = (Inr False, add_error (Auth_Failed filename url) st)"
    by (simp add: test_lyceum_endpoint_def)
  have p2: "lyceum_request ev url (auth_headers st) = Response 403 body \<longrightarrow>
      test_lyceum_endpoint ev url filename st = (Inr True, add_warning (Forbidden_Access filename url) st)"
    by (simp add: test_lyceum_endpoint_def)
  have p3: "(let run = run_validation ev
                   [\<lparr>file_path = path, relative_name = filename, file_content = Inr content\<rparr>]
                   (init_validator dir token)
       in fst run \<noteq> Inr True
        \<and> (write_report ev dir (generate_report ev (snd run)) = None \<longrightarrow> fst run = Inr False)
        \<and> fst (main ev dir token
                  [\<lparr>file_path = path, relative_name = filename, file_content = Inr content\<rparr>]) = 1
        \<and> filter is_auth_failed (errors (snd run)) =
            (if \<forall>b \<in> set (extract_code_blocks content). json_exception ev b = None
             then [Auth_Failed filename url] else [])
        \<and> (extract_code_blocks content = [] \<longrightarrow> errors (snd run) = [Auth_Failed filename url]))"
    if h: "truthy token"
      "filter (\<lambda>u. u \<in> set lyceum_test_endpoints) (map clean_url (find_urls content)) = [url]"
      "lyceum_request ev url (auth_headers (init_validator dir token)) = Response 401 body"
  proof -
    let ?st0 = "init_validator dir token"
    let ?f = "\<lparr>file_path = path, relative_name = filename, file_content = Inr content\<rparr>"
    define st1 where "st1 = file_step ev ?f ?st0"
    have i0: "errors ?st0 = []" "auth_token ?st0 = token" "docs_dir ?st0 = dir"
      by (simp_all add: init_validator_def)
    have t0: "truthy (auth_token ?st0)" using h(1) i0 by simp
    have d1: "docs_dir st1 = dir" by (simp add: st1_def file_step_docs_dir i0)
    have facts: "errors st1 \<noteq> []
        \<and> filter is_auth_failed (errors st1) =
            (if \<forall>b \<in> set (extract_code_blocks content). json_exception ev b = None
             then [Auth_Failed filename url] else [])
        \<and> (extract_code_blocks content = [] \<longrightarrow> errors st1 = [Auth_Failed filename url])"
    proof (cases "\<forall>b \<in> set (extract_code_blocks content). json_exception ev b = None")
      case True
      from validate_file_unauthorized[OF True t0 h(2) h(3), of filename] obtain res st' where
        v: "validate_file ev content filename ?st0 = (Inr res, st')"
        and a: "filter is_auth_failed (errors st') =
                  filter is_auth_failed (errors ?st0) @ [Auth_Failed filename url]"
        and e: "extract_code_blocks content = [] \<longrightarrow> errors st' = errors ?st0 @ [Auth_Failed filename url]"
        by blast
      have s: "errors st1 = errors st'" using v by (simp add: st1_def file_step_def)
      have a': "filter is_auth_failed (errors st1) = [Auth_Failed filename url]"
        using a i0 s by simp
      then have "errors st1 \<noteq> []" by auto
      moreover have "extract_code_blocks content = [] \<longrightarrow> errors st1 = [Auth_Failed filename url]"
        using e i0 s by simp
      ultimately show ?thesis using True a' by simp
    next
      case False
      then have ex: "\<exists>b \<in> set (extract_code_blocks content). json_exception ev b \<noteq> None" by blast
      from validate_file_raises[OF ex, of filename ?st0] obtain e st' where
        v: "validate_file ev content filename ?st0 = (Inl e, st')"
        and a: "filter is_auth_failed (errors st') = filter is_auth_failed (errors ?st0)"
        by blast
      have s: "errors st1 = errors st' @ [Failed_To_Validate path e]"
        using v by (simp add: st1_def file_step_def add_error_def)
      have a': "filter is_auth_failed (errors st1) = []" using a i0 s by simp
      have n: "errors st1 \<noteq> []" using s by simp
      have b: "extract_code_blocks content \<noteq> []" using ex by auto
      from False a' n b show ?thesis by simp
    qed
    have run: "run_validation ev [?f] ?st0 =
                 (case write_report ev dir (generate_report ev st1) of
                    Some e \<Rightarrow> (Inl e, st1)
                  | None \<Rightarrow> (Inr (length (errors st1) = 0), st1))"
      by (simp add: run_validation_def Let_def st1_def[symmetric] d1)
    have sr: "snd (run_validation ev [?f] ?st0) = st1"
      by (simp add: run split: option.splits)
    have f1: "fst (run_validation ev [?f] ?st0) \<noteq> Inr True"
      using facts by (simp add: run split: option.splits)
    have f2: "write_report ev dir (generate_report ev st1) = None \<longrightarrow>
                fst (run_validation ev [?f] ?st0) = Inr False"
      using facts by (simp add: run)
    have f3: "fst (main ev dir token [?f]) = 1"
      using facts by (simp add: main_def run split: option.splits)
    from facts sr f1 f2 f3 show ?thesis
      unfolding Let_def by (simp only:, blast?)
  qed
  have p4: "render_entry (Auth_Failed filename url) =
       filename @ '': Authentication failed for '' @ url @ '' - invalid token?''"
    by simp
  from p1 p2 p3 p4 show ?thesis by blast
qed

subsection \<open>A block of one repeated character\<close>

lemma contains_replicate:
  "p \<noteq> [] \<Longrightarrow> hd p \<noteq> c \<Longrightarrow> \<not> contains (replicate n c) p"
  by (induction n) (cases p; simp)+

lemma split_replicate:
  "c \<noteq> newline \<Longrightarrow> split [newline] (replicate n c) = [replicate n c]"
  by (induction n) simp_all

lemma comma_sub_replicate:
  "c \<noteq> CHR '','' \<Longrightarrow> re_sub comma_match f (replicate n c) = replicate n c"
  by (induction n) (simp_all add: comma_match_def)

lemma deep_clean: "clean_json_code deep_text = deep_text"
proof -
  have "\<not> contains deep_text ''//''"
    unfolding deep_text_def by (rule contains_replicate) simp_all
  then have "clean_json_line deep_text = deep_text"
    by (simp add: clean_json_line_def deep_text_def comma_sub_replicate)
  then show ?thesis
    by (simp add: clean_json_code_def deep_text_def split_replicate)
qed

lemma deep_loads: "json_loads example_env deep_text = Json_Exception recursion_error"
  by (simp add: example_env_def deep_text_def takeWhile_replicate)

lemma deep_no_placeholder: "\<not> is_template_json deep_text"
  unfolding is_template_json_def placeholders_def deep_text_def
  by (simp add: contains_replicate)

lemma strip_plain:
  assumes "body \<noteq> []" "\<not> isspace (hd body)" "\<not> isspace (last body)"
  shows "strip (body @ [newline]) = body"
proof -
  from assms obtain c cs where b: "body = c # cs" by (cases body) auto
  from assms obtain d ds where r: "rev body = d # ds" by (cases "rev body") auto
  then have d: "d = last body" using assms(1) by (metis hd_rev list.sel(1))
  have n: "isspace newline" by (simp add: isspace_def)
  have 1: "dropWhile isspace (body @ [newline]) = body @ [newline]"
    using b assms(2) by simp
  have "dropWhile isspace (d # ds) = d # ds" using d assms(3) by simp
  then have 2: "dropWhile isspace (rev body) = rev body" by (simp only: r)
  have 3: "rev (body @ [newline]) = newline # rev body" by simp
  have "dropWhile isspace (newline # rev body) = dropWhile isspace (rev body)" using n by simp
  with 2 3 have "dropWhile isspace (rev (body @ [newline])) = rev body" by (simp only:)
  with 1 show ?thesis by (simp only: strip_def rev_rev_ident)
qed

lemma fence_match_json_block:
  assumes "body \<noteq> []" "\<not> isspace (hd body)" "backtick \<notin> set body"
  shows "fence_match (fence @ ''json'' @ [newline] @ body @ [newline] @ fence @ rest) =
           Some ((''json'', body @ [newline]), 12 + length body)"
proof -
  from assms obtain c cs where b: "body = c # cs" by (cases body) auto
  have w: "isword (CHR ''j'')" "isword (CHR ''s'')" "isword (CHR ''o'')" "isword (CHR ''n'')"
          "\<not> isword newline" "isspace newline" "\<not> isspace backtick"
    by (simp_all add: isword_def isspace_def)
  have nb: "\<And>x. x \<in> set body \<Longrightarrow> x \<noteq> backtick" using assms(3) by auto
  have t1: "takeWhile (\<lambda>c. c \<noteq> backtick) (body @ newline # fence @ rest) =
              body @ takeWhile (\<lambda>c. c \<noteq> backtick) (newline # fence @ rest)"
    by (rule takeWhile_append2) (rule nb)
  have t2: "dropWhile (\<lambda>c. c \<noteq> backtick) (body @ newline # fence @ rest) =
              dropWhile (\<lambda>c. c \<noteq> backtick) (newline # fence @ rest)"
    by (rule dropWhile_append2) (rule nb)
  have t: "takeWhile (\<lambda>c. c \<noteq> backtick) (body @ newline # fence @ rest) = body @ [newline]"
          "dropWhile (\<lambda>c. c \<noteq> backtick) (body @ newline # fence @ rest) = fence @ rest"
    unfolding t1 t2 by (simp_all add: fence_def)
  have s: "takeWhile isspace (newline # body @ newline # fence @ rest) = [newline]"
          "dropWhile isspace (newline # body @ newline # fence @ rest) = body @ newline # fence @ rest"
    using b assms(2) w by simp_all
  have l: "length (fence @ rest) = 3 + length rest" by (simp add: fence_def)
  have "fence_match ([backtick, backtick, backtick] @ ''json'' @ [newline] @ body @ [newline] @ fence @ rest)
          = Some ((''json'', body @ [newline]), 12 + length body)"
    using w s t by (simp add: fence_match_def) (simp add: fence_def)
  then show ?thesis by (simp only: fence_def)
qed

lemma re_finditer_match:
  "m s = Some (g, n) \<Longrightarrow> s \<noteq> [] \<Longrightarrow> 0 < n \<Longrightarrow>
     re_finditer m pos s = (pos, g, pos + n) # re_finditer m (pos + n) (drop n s)"
  by (cases s; cases n) simp_all

lemma deep_text_facts:
  "deep_text \<noteq> []" "\<not> isspace (hd deep_text)" "\<not> isspace (last deep_text)"
  "backtick \<notin> set deep_text" "length deep_text = 1000"
  by (simp_all add: deep_text_def isspace_def)

lemma deep_tail_matches:
  "re_finditer fence_match 1012 deep_tail =
     [(1013, (''json'', ''{'' @ [dquote] @ ''a'' @ [dquote] @ '': }'' @ [newline]), 1032),
      (1033, (''json'', ''{'' @ [dquote] @ ''token'' @ [dquote] @ '': <TOKEN>}'' @ [newline]), 1063)]"
  by code_simp

lemma deep_doc_matches:
  "re_finditer fence_match 0 deep_doc =
     [(0, (''json'', deep_text @ [newline]), 1012),
      (1013, (''json'', ''{'' @ [dquote] @ ''a'' @ [dquote] @ '': }'' @ [newline]), 1032),
      (1033, (''json'', ''{'' @ [dquote] @ ''token'' @ [dquote] @ '': <TOKEN>}'' @ [newline]), 1063)]"
proof -
  have m: "fence_match deep_doc = Some ((''json'', deep_text @ [newline]), 12 + length deep_text)"
    unfolding deep_doc_def using deep_text_facts(1,2,4) by (rule fence_match_json_block)
  have "deep_doc = (fence @ ''json'' @ [newline] @ deep_text @ [newline] @ fence) @ deep_tail"
    by (simp add: deep_doc_def)
  moreover have "length (fence @ ''json'' @ [newline] @ deep_text @ [newline] @ fence) = 1012"
    by (simp add: fence_def deep_text_facts(5))
  ultimately have d: "drop 1012 deep_doc = deep_tail"
    by (metis append_eq_conv_conj)
  have ne: "deep_doc \<noteq> []" by (simp add: deep_doc_def fence_def)
  have "0 < 12 + length deep_text" by simp
  with m ne have "re_finditer fence_match 0 deep_doc =
      (0, (''json'', deep_text @ [newline]), 0 + (12 + length deep_text))
        # re_finditer fence_match (0 + (12 + length deep_text)) (drop (12 + length deep_text) deep_doc)"
    by (rule re_finditer_match)
  with d deep_tail_matches show ?thesis
    by (simp add: deep_text_facts(5))
qed

lemma deep_doc_blocks:
  "extract_code_blocks deep_doc =
     [\<lparr>language = ''json'', code = deep_text, start_pos = 0, end_pos = 1012\<rparr>,
      \<lparr>language = ''json'', code = ''{'' @ [dquote] @ ''a'' @ [dquote] @ '': }'',
       start_pos = 1013, end_pos = 1032\<rparr>,
      \<lparr>language = ''json'', code = ''{'' @ [dquote] @ ''token'' @ [dquote] @ '': <TOKEN>}'',
       start_pos = 1033, end_pos = 1063\<rparr>]"
proof -
  have s1: "strip (deep_text @ [newline]) = deep_text"
    using deep_text_facts(1,2,3) by (rule strip_plain)
  have s2: "strip (''{'' @ [dquote] @ ''a'' @ [dquote] @ '': }'' @ [newline])
              = ''{'' @ [dquote] @ ''a'' @ [dquote] @ '': }''"
    by code_simp
  have s3: "strip (''{'' @ [dquote] @ ''token'' @ [dquote] @ '': <TOKEN>}'' @ [newline])
              = ''{'' @ [dquote] @ ''token'' @ [dquote] @ '': <TOKEN>}''"
    by code_simp
  have b1: "mk_block (0, (''json'', deep_text @ [newline]), 1012) =
              Some \<lparr>language = ''json'', code = deep_text, start_pos = 0, end_pos = 1012\<rparr>"
    using deep_text_facts(1) by (simp add: mk_block_def s1)
  have b2: "mk_block (1013, (''json'', ''{'' @ [dquote] @ ''a'' @ [dquote] @ '': }'' @ [newline]), 1032) =
              Some \<lparr>language = ''json'', code = ''{'' @ [dquote] @ ''a'' @ [dquote] @ '': }'',
                    start_pos = 1013, end_pos = 1032\<rparr>"
    using s2 by (simp add: mk_block_def)
  have b3: "mk_block (1033, (''json'', ''{'' @ [dquote] @ ''token'' @ [dquote] @ '': <TOKEN>}'' @ [newline]), 1063) =
              Some \<lparr>language = ''json'', code = ''{'' @ [dquote] @ ''token'' @ [dquote] @ '': <TOKEN>}'',
                    start_pos = 1033, end_pos = 1063\<rparr>"
    using s3 by (simp add: mk_block_def)
  show ?thesis
    unfolding extract_code_blocks_def deep_doc_matches
    by (simp only: map_filter_simps b1 b2 b3 option.case)
qed

subsection \<open>The example documents\<close>

lemma json_doc_blocks:
  "extract_code_blocks json_doc =
     [\<lparr>language = ''json'', code = ''{'' @ [dquote] @ ''a'' @ [dquote] @ '': 1,}'', start_pos = 0, end_pos = 21\<rparr>,
      \<lparr>language = ''json'', code = ''{'' @ [dquote] @ ''a'' @ [dquote] @ '': }'', start_pos = 22, end_pos = 41\<rparr>,
      \<lparr>language = ''json'', code = ''{'' @ [dquote] @ ''token'' @ [dquote] @ '': <TOKEN>}'', start_pos = 42, end_pos = 72\<rparr>]"
  by code_simp

lemma json_doc_failures:
  "map (json_failure example_env) (extract_code_blocks json_doc) =
     [None, Some ''Expecting value'', Some ''Expecting value'']"
  unfolding json_doc_blocks by code_simp

lemma json_doc_exceptions:
  "map (json_exception example_env) (extract_code_blocks json_doc) = [None, None, None]"
  unfolding json_doc_blocks by code_simp

lemma json_doc_templates:
  "map (\<lambda>b. is_template_json (code b)) (extract_code_blocks json_doc) = [False, False, True]"
  unfolding json_doc_blocks by code_simp

lemma json_doc_reached:
  "takeWhile (\<lambda>b. json_exception example_env b = None) (extract_code_blocks json_doc)
     = extract_code_blocks json_doc"
  "dropWhile (\<lambda>b. json_exception example_env b = None) (extract_code_blocks json_doc) = []"
  using json_doc_exceptions unfolding json_doc_blocks by simp_all

lemma json_doc_failing:
  "filter (\<lambda>b. json_failure example_env b \<noteq> None) (extract_code_blocks json_doc)
     = tl (extract_code_blocks json_doc)"
  using json_doc_failures unfolding json_doc_blocks by simp

lemma json_doc_tail:
  "map (\<lambda>b. is_template_json (code b)) (tl (extract_code_blocks json_doc)) = [False, True]"
  "map (json_failure example_env) (tl (extract_code_blocks json_doc)) =
     [Some ''Expecting value'', Some ''Expecting value'']"
  using json_doc_templates json_doc_failures unfolding json_doc_blocks by simp_all

theorem json_parse_failures_recorded_witness:
  "errors (snd (validate_json_examples example_env json_doc ''api.mdx'' (init_validator ''docs'' None)))
     = [Invalid_JSON ''api.mdx'' ''Expecting value'']
   \<and> warnings (snd (validate_json_examples example_env json_doc ''api.mdx'' (init_validator ''docs'' None)))
     = [Template_JSON ''api.mdx'' ''Expecting value'']
   \<and> fst (validate_json_examples example_env json_doc ''api.mdx'' (init_validator ''docs'' None))
     = Inr False
   \<and> validate_json_examples example_env json_example ''api.mdx'' (init_validator ''docs'' None)
     = (Inr True, init_validator ''docs'' None)"
proof -
  have l: "json_loads example_env valid_json_text = Json_Parsed"
    by (simp add: example_env_def valid_json_text_def)
  have i: "errors (init_validator ''docs'' None) = []" "warnings (init_validator ''docs'' None) = []"
    by (simp_all add: init_validator_def)
  show ?thesis
    using json_parse_failures_recorded[where ev = example_env and content = json_doc
            and filename = "''api.mdx''" and st = "init_validator ''docs'' None"]
          l i json_doc_tail
    unfolding Let_def json_doc_reached json_doc_failing
    unfolding json_doc_blocks
    by simp
qed



lemma deep_doc_second:
  "json_failure example_env
     \<lparr>language = ''json'', code = ''{'' @ [dquote] @ ''a'' @ [dquote] @ '': }'',
      start_pos = 1013, end_pos = 1032\<rparr> = Some ''Expecting value''"
  "\<not> is_template_json (''{'' @ [dquote] @ ''a'' @ [dquote] @ '': }'')"
  by code_simp+

lemma deep_doc_third:
  "json_failure example_env
     \<lparr>language = ''json'', code = ''{'' @ [dquote] @ ''token'' @ [dquote] @ '': <TOKEN>}'',
      start_pos = 1033, end_pos = 1063\<rparr> = Some ''Expecting value''"
  "is_template_json (''{'' @ [dquote] @ ''token'' @ [dquote] @ '': <TOKEN>}'')"
  by code_simp+

lemma deep_doc_json_check:
  "validate_json_examples example_env deep_doc f st = (Inl recursion_error, st)"
  unfolding validate_json_examples_def deep_doc_blocks
  by (simp add: deep_clean deep_loads)


text \<open>
  A document of three JSON-tagged blocks. On the first the parser raises \<open>RecursionError\<close>;
  the second does not parse and holds no placeholder; the third does not parse and holds
  the placeholder \<open><TOKEN>\<close>. The check of the document ends at the first block with the
  exception, and records neither the error for the second nor the warning for the third.
\<close>

theorem later_json_blocks_not_recorded:
  "map language (extract_code_blocks deep_doc) = [''json'', ''json'', ''json'']
   \<and> json_failure example_env (extract_code_blocks deep_doc ! 1) = Some ''Expecting value''
   \<and> \<not> is_template_json (code (extract_code_blocks deep_doc ! 1))
   \<and> json_failure example_env (extract_code_blocks deep_doc ! 2) = Some ''Expecting value''
   \<and> is_template_json (code (extract_code_blocks deep_doc ! 2))
   \<and> validate_json_examples example_env deep_doc ''api.mdx'' (init_validator ''docs'' None)
       = (Inl recursion_error, init_validator ''docs'' None)
   \<and> errors (init_validator ''docs'' None) = []
   \<and> warnings (init_validator ''docs'' None) = []"
proof -
  have a: "map language (extract_code_blocks deep_doc) = [''json'', ''json'', ''json'']"
    unfolding deep_doc_blocks by simp
  have b: "json_failure example_env (extract_code_blocks deep_doc ! 1) = Some ''Expecting value''"
          "\<not> is_template_json (code (extract_code_blocks deep_doc ! 1))"
    unfolding deep_doc_blocks using deep_doc_second by simp_all
  have c: "json_failure example_env (extract_code_blocks deep_doc ! 2) = Some ''Expecting value''"
          "is_template_json (code (extract_code_blocks deep_doc ! 2))"
    unfolding deep_doc_blocks using deep_doc_third by simp_all
  have d: "errors (init_validator ''docs'' None) = []" "warnings (init_validator ''docs'' None) = []"
    by (simp_all add: init_validator_def)
  from a b c d deep_doc_json_check[of "''api.mdx''" "init_validator ''docs'' None"]
  show ?thesis by (simp only:, blast?)
qed


lemma plain_doc_no_fence: "\<forall>r \<in> set (suffixes plain_doc). fence_match r = None"
  by code_simp

lemma plain_doc_no_url: "\<forall>r \<in> set (suffixes plain_doc). url_match r = None"
  by code_simp

theorem plain_document_is_clean_witness:
  "validate_file example_env plain_doc ''billing.mdx'' (init_validator ''docs'' None) =
     (Inr \<lparr>file_name = ''billing.mdx'', python_blocks = 0, json_blocks = 0,
           curl_commands = 0, api_endpoints = 0, n_errors = 0, n_warnings = 0\<rparr>,
      init_validator ''docs'' None)"
  using plain_document_is_clean[of plain_doc example_env "''billing.mdx''" "init_validator ''docs'' None"]
        plain_doc_no_fence plain_doc_no_url
  by blast

lemma credits_doc_urls: "map clean_url (find_urls credits_doc) = [credits_url]"
  by code_simp

lemma credits_doc_tested:
  "filter (\<lambda>u. u \<in> set lyceum_test_endpoints) (map clean_url (find_urls credits_doc)) = [credits_url]"
  unfolding credits_doc_urls by code_simp

lemma credits_doc_blocks: "extract_code_blocks credits_doc = []"
  by code_simp

lemma credits_request:
  "lyceum_request example_env credits_url hs = Response 401 Body_Invalid"
proof -
  have "contains credits_url ''billing/credits''" by code_simp
  then show ?thesis by (simp add: lyceum_request_def example_env_def)
qed

theorem auth_failure_fails_run_witness:
  "fst (run_validation example_env
          [\<lparr>file_path = ''docs/billing.mdx'', relative_name = ''billing.mdx'',
            file_content = Inr credits_doc\<rparr>]
          (init_validator ''docs'' (Some ''secret''))) = Inr False
   \<and> errors (snd (run_validation example_env
          [\<lparr>file_path = ''docs/billing.mdx'', relative_name = ''billing.mdx'',
            file_content = Inr credits_doc\<rparr>]
          (init_validator ''docs'' (Some ''secret''))))
       = [Auth_Failed ''billing.mdx'' credits_url]
   \<and> fst (main example_env ''docs'' (Some ''secret'')
          [\<lparr>file_path = ''docs/billing.mdx'', relative_name = ''billing.mdx'',
            file_content = Inr credits_doc\<rparr>]) = 1"
proof -
  have t: "truthy (Some ''secret'')" by (simp add: truthy_def)
  have w: "write_report example_env ''docs'' report = None" for report
    by (simp add: example_env_def)
  show ?thesis
    using auth_failure_fails_run[where ev = example_env and url = credits_url
            and st = "init_validator ''docs'' (Some ''secret'')" and body = Body_Invalid
            and filename = "''billing.mdx''" and token = "Some ''secret''"
            and content = credits_doc and dir = "''docs''" and path = "''docs/billing.mdx''"]
          t credits_doc_tested credits_doc_blocks credits_request w
    by (simp add: Let_def)
qed

subsection \<open>Endpoint shapes\<close>








subsection \<open>Imports\<close>

lemma clean_import_blocks:
  "clean_python_code numpy_block = numpy_block"
  "clean_python_code unpublished_block = unpublished_block"
  by code_simp+

lemma numpy_allowed: "base_package ''numpy'' \<in> set common_packages"
  by code_simp

lemma unpublished_not_allowed:
  "base_package unpublished = unpublished"
  "unpublished \<notin> set common_packages"
  "\<not> startswith unpublished ''_''"
  by code_simp+

lemma walk_single_import: "ast_walk (Node [Import [name]]) = [Node [Import [name]], Import [name]]"
  by (simp add: ast_walk_def)

text \<open>
  C1. A block that only imports numpy adds no warning. A block that only imports a module
  that is not allow-listed and that the module finder does not find (\<open>find_spec\<close> returns
  \<open>None\<close>) adds no warning either, where the claim expects one: the code looks only at
  exceptions of \<open>find_spec\<close>, and a warning naming the import is added only when it raises.
\<close>

theorem unresolvable_import_not_flagged:
  "(ast_parse ev numpy_block = Parsed (Node [Import [''numpy'']]) \<longrightarrow>
      validate_python_imports ev numpy_block filename st = (True, st))
   \<and> (ast_parse ev unpublished_block = Parsed (Node [Import [unpublished]])
        \<and> find_spec ev unpublished = Spec_None \<longrightarrow>
      validate_python_imports ev unpublished_block filename st = (True, st))
   \<and> (ast_parse ev unpublished_block = Parsed (Node [Import [unpublished]])
        \<and> find_spec ev unpublished = Spec_ImportError e \<longrightarrow>
      validate_python_imports ev unpublished_block filename st =
        (True, add_warning (Unavailable_Imports filename [unpublished]) st))"
proof -
  have a: "validate_python_imports ev numpy_block filename st = (True, st)"
    if "ast_parse ev numpy_block = Parsed (Node [Import [''numpy'']])"
    using that numpy_allowed
    by (simp add: validate_python_imports_def clean_import_blocks walk_single_import)
  have b: "validate_python_imports ev unpublished_block filename st = (True, st)"
    if "ast_parse ev unpublished_block = Parsed (Node [Import [unpublished]])"
       "find_spec ev unpublished = Spec_None"
    using that unpublished_not_allowed
    by (simp add: validate_python_imports_def clean_import_blocks walk_single_import)
  have c: "validate_python_imports ev unpublished_block filename st =
        (True, add_warning (Unavailable_Imports filename [unpublished]) st)"
    if "ast_parse ev unpublished_block = Parsed (Node [Import [unpublished]])"
       "find_spec ev unpublished = Spec_ImportError e"
    using that unpublished_not_allowed
    by (simp add: validate_python_imports_def clean_import_blocks walk_single_import)
  from a b c show ?thesis by blast
qed

theorem unresolvable_import_not_flagged_witness:
  "validate_python_imports example_env numpy_block ''quickstart.mdx'' (init_validator ''docs'' None)
     = (True, init_validator ''docs'' None)
   \<and> validate_python_imports example_env unpublished_block ''quickstart.mdx'' (init_validator ''docs'' None)
     = (True, init_validator ''docs'' None)"
proof -
  have p: "ast_parse example_env numpy_block = Parsed (Node [Import [''numpy'']])"
    by (simp add: example_env_def numpy_block_def)
  have q: "ast_parse example_env unpublished_block = Parsed (Node [Import [unpublished]])"
    by (simp add: example_env_def unpublished_def unpublished_block_def)
  have r: "find_spec example_env unpublished = Spec_None"
    by (simp add: example_env_def unpublished_def)
  from unresolvable_import_not_flagged[of example_env "''quickstart.mdx''" "init_validator ''docs'' None"] p q r
  show ?thesis by blast
qed

end
